theory Spec2Isabelle
  imports Complex_Main "HOL-Library.Monad_Syntax"
begin

section \<open>Conventions of the embedding\<close>

text \<open>
  The development embeds \<^verbatim>\<open>src/src/kernel.cu\<close>, a CUDA flocking simulation.

  \<^item> A device buffer is a list. The source indexes buffers with C \<^verbatim>\<open>int\<close>s, so an index
    is an \<open>int\<close>; a read or write outside the buffer is undefined behaviour in C and is
    the value \<open>None\<close> here (\<open>rd\<close>, \<open>wr\<close>).
  \<^item> A \<^verbatim>\<open>float\<close> is idealised as a \<open>real\<close>: comparisons, \<^verbatim>\<open>floor\<close> and the
    arithmetic are exact. Rounding is not modelled.
  \<^item> A kernel is given by the function one thread runs and by the launch, which runs the
    threads \<open>0 .. N - 1\<close> one after the other (\<open>forEach\<close> over \<open>threads N\<close>). Threads of the source with
    \<open>index \<ge> N\<close> return at once and are left out. Where the threads of a kernel write
    the same cell, the order of the threads is a parameter of the launch.
  \<^item> The values of the grid cell ids stay far below \<open>2^31\<close> for the grid the simulation
    builds (22 cells a side), so a C \<^verbatim>\<open>int\<close> is an \<open>int\<close>.
\<close>

definition rd :: "'a list \<Rightarrow> int \<Rightarrow> 'a option" where
  "rd a i = (if 0 \<le> i \<and> i < int (length a) then Some (a ! nat i) else None)"

definition wr :: "'a list \<Rightarrow> int \<Rightarrow> 'a \<Rightarrow> 'a list option" where
  "wr a i v = (if 0 \<le> i \<and> i < int (length a) then Some (a[nat i := v]) else None)"

text \<open>
  A loop whose body may fail: the iterations run in the order of the list and the first
  failure ends the run. It serves both for a \<^verbatim>\<open>for\<close> loop, over the list \<open>[lo..hi]\<close>
  of its counter's values, and for the threads of a launch.
\<close>

fun forEach :: "int list \<Rightarrow> (int \<Rightarrow> 's \<Rightarrow> 's option) \<Rightarrow> 's \<Rightarrow> 's option" where
  "forEach [] body s = Some s"
| "forEach (t # ts) body s =
     (case body t s of None \<Rightarrow> None | Some s' \<Rightarrow> forEach ts body s')"

definition threads :: "int \<Rightarrow> int list" where
  "threads N = map int [0..<nat N]"

section \<open>Cell range table: \<^verbatim>\<open>kernIdentifyCellStartEnd\<close>\<close>

text \<open>
  \<^verbatim>\<open>while (particleGridIndices[k - 1] == particleGridIndices[k]) k--;\<close>
  The result is the value of \<open>k\<close> when the loop ends.
\<close>

function scanDown :: "int list \<Rightarrow> int \<Rightarrow> int option" where
  "scanDown g k =
     (case rd g (k - 1) of
        None \<Rightarrow> None
      | Some a \<Rightarrow>
          (case rd g k of
             None \<Rightarrow> None
           | Some b \<Rightarrow> if a = b then scanDown g (k - 1) else Some k))"
  by pat_completeness auto
termination
  by (relation "measure (\<lambda>(g, k). nat k)") (auto simp: rd_def split: if_splits)

declare scanDown.simps [simp del]

text \<open>
  \<^verbatim>\<open>while (particleGridIndices[p] == particleGridIndices[p + 1]) p++;\<close>
\<close>

function scanUp :: "int list \<Rightarrow> int \<Rightarrow> int option" where
  "scanUp g p =
     (case rd g p of
        None \<Rightarrow> None
      | Some a \<Rightarrow>
          (case rd g (p + 1) of
             None \<Rightarrow> None
           | Some b \<Rightarrow> if a = b then scanUp g (p + 1) else Some p))"
  by pat_completeness auto
termination
  by (relation "measure (\<lambda>(g, p). nat (int (length g) - p))")
     (auto simp: rd_def split: if_splits)

declare scanUp.simps [simp del]

text \<open>
  The value a thread stores in \<^verbatim>\<open>gridCellStartIndices[index]\<close> when it is not thread 0:
  the branch \<^verbatim>\<open>particleGridIndices[index - 1] != particleGridIndices[index]\<close> and its
  \<^verbatim>\<open>else\<close>, which stores \<^verbatim>\<open>k - 1\<close> (\<^verbatim>\<open>j - 1\<close> in the branch of thread \<open>N - 1\<close>).
\<close>

definition startOf :: "int list \<Rightarrow> int \<Rightarrow> int option" where
  "startOf g index =
     do {
       a \<leftarrow> rd g (index - 1);
       b \<leftarrow> rd g index;
       if a \<noteq> b then Some index
       else do { k \<leftarrow> scanDown g index; Some (k - 1) }
     }"

text \<open>
  The value a thread stores in \<^verbatim>\<open>gridCellEndIndices[index]\<close> when it is not thread
  \<open>N - 1\<close>: the \<^verbatim>\<open>else\<close> branch stores \<^verbatim>\<open>p + 1\<close> (\<^verbatim>\<open>i + 1\<close> in the branch of thread 0).
\<close>

definition endOf :: "int list \<Rightarrow> int \<Rightarrow> int option" where
  "endOf g index =
     do {
       a \<leftarrow> rd g index;
       b \<leftarrow> rd g (index + 1);
       if a \<noteq> b then Some index
       else do { p \<leftarrow> scanUp g index; Some (p + 1) }
     }"

text \<open>
  One thread of \<^verbatim>\<open>kernIdentifyCellStartEnd\<close>: the pair it stores in
  \<^verbatim>\<open>gridCellStartIndices[index]\<close> and \<^verbatim>\<open>gridCellEndIndices[index]\<close>. The three
  branches are those of the source: \<open>index = 0\<close> first, then \<open>index = N - 1\<close>, then the
  others.
\<close>

definition cellStartEndThread :: "int \<Rightarrow> int list \<Rightarrow> int \<Rightarrow> (int \<times> int) option" where
  "cellStartEndThread N g index =
     (if index = 0 then
        do { e \<leftarrow> endOf g index; Some (index, e) }
      else if index = N - 1 then
        do { s \<leftarrow> startOf g index; Some (s, index) }
      else
        do { s \<leftarrow> startOf g index; e \<leftarrow> endOf g index; Some (s, e) })"

definition kernIdentifyCellStartEnd ::
  "int \<Rightarrow> int list \<Rightarrow> int list \<Rightarrow> int list \<Rightarrow> (int list \<times> int list) option" where
  "kernIdentifyCellStartEnd N particleGridIndices gridCellStartIndices gridCellEndIndices =
     forEach (threads N)
       (\<lambda>index (starts, ends).
          do {
            (s, e) \<leftarrow> cellStartEndThread N particleGridIndices index;
            starts' \<leftarrow> wr starts index s;
            ends' \<leftarrow> wr ends index e;
            Some (starts', ends')
          })
       (gridCellStartIndices, gridCellEndIndices)"

section \<open>Vectors and the configuration constants\<close>

text \<open>
  \<^verbatim>\<open>glm::vec3\<close> with the operations the kernels use. \<^verbatim>\<open>glm::length\<close> is the square
  root of the dot product and \<^verbatim>\<open>glm::normalize\<close> multiplies by its inverse. \<open>vdiv\<close> is
  \<^verbatim>\<open>v /= count\<close> for an \<^verbatim>\<open>int\<close> count, which GLM converts to \<^verbatim>\<open>float\<close> first.
\<close>

datatype vec3 = Vec3 (vx: real) (vy: real) (vz: real)

definition vzero :: vec3 where
  "vzero = Vec3 0 0 0"

definition vadd :: "vec3 \<Rightarrow> vec3 \<Rightarrow> vec3" where
  "vadd a b = Vec3 (vx a + vx b) (vy a + vy b) (vz a + vz b)"

definition vsub :: "vec3 \<Rightarrow> vec3 \<Rightarrow> vec3" where
  "vsub a b = Vec3 (vx a - vx b) (vy a - vy b) (vz a - vz b)"

definition vscale :: "vec3 \<Rightarrow> real \<Rightarrow> vec3" where
  "vscale a s = Vec3 (vx a * s) (vy a * s) (vz a * s)"

definition vdiv :: "vec3 \<Rightarrow> int \<Rightarrow> vec3" where
  "vdiv a n = Vec3 (vx a / real_of_int n) (vy a / real_of_int n) (vz a / real_of_int n)"

definition vdot :: "vec3 \<Rightarrow> vec3 \<Rightarrow> real" where
  "vdot a b = vx a * vx b + vy a * vy b + vz a * vz b"

definition vlength :: "vec3 \<Rightarrow> real" where
  "vlength a = sqrt (vdot a a)"

definition normalize_vec3 :: "vec3 \<Rightarrow> vec3" where
  "normalize_vec3 a = vscale a (1 / sqrt (vdot a a))"

definition rule1Distance :: real where "rule1Distance = 5"
definition rule2Distance :: real where "rule2Distance = 3"
definition rule3Distance :: real where "rule3Distance = 5"
definition rule1Scale :: real where "rule1Scale = 0.01"
definition rule2Scale :: real where "rule2Scale = 0.1"
definition rule3Scale :: real where "rule3Scale = 0.1"
definition maxSpeed :: real where "maxSpeed = 1"
definition scene_scale :: real where "scene_scale = 100"

section \<open>Position integrator: \<^verbatim>\<open>kernUpdatePos\<close>\<close>

text \<open>
  The two assignments the kernel applies to each coordinate, in the order of the source:
  \<^verbatim>\<open>c = c < -scene_scale ? scene_scale : c;\<close> then
  \<^verbatim>\<open>c = c > scene_scale ? -scene_scale : c;\<close>
\<close>

definition wrapCoord :: "real \<Rightarrow> real" where
  "wrapCoord c =
     (let c1 = (if c < - scene_scale then scene_scale else c)
      in if c1 > scene_scale then - scene_scale else c1)"

definition wrapPos :: "vec3 \<Rightarrow> vec3" where
  "wrapPos p = Vec3 (wrapCoord (vx p)) (wrapCoord (vy p)) (wrapCoord (vz p))"

definition kernUpdatePos :: "int \<Rightarrow> real \<Rightarrow> vec3 list \<Rightarrow> vec3 list \<Rightarrow> vec3 list option" where
  "kernUpdatePos N dt pos vel =
     forEach (threads N)
       (\<lambda>index pos.
          do {
            thisPos \<leftarrow> rd pos index;
            v \<leftarrow> rd vel index;
            wr pos index (wrapPos (vadd thisPos (vscale v dt)))
          })
       pos"

section \<open>Grid indexer: \<^verbatim>\<open>gridIndex3Dto1D\<close> and \<^verbatim>\<open>kernComputeIndices\<close>\<close>

definition gridIndex3Dto1D :: "int \<Rightarrow> int \<Rightarrow> int \<Rightarrow> int \<Rightarrow> int" where
  "gridIndex3Dto1D x y z gridResolution =
     (if x \<ge> gridResolution \<or> x < 0 \<or> y \<ge> gridResolution \<or> y < 0
         \<or> z \<ge> gridResolution \<or> z < 0
      then - 1
      else x + y * gridResolution + z * gridResolution * gridResolution)"

text \<open>
  One thread of \<^verbatim>\<open>kernComputeIndices\<close>: the grid cell of a position. The conversion of
  the floored \<^verbatim>\<open>float\<close> to \<^verbatim>\<open>int\<close> is the integer \<open>\<lfloor>_\<rfloor>\<close>.
\<close>

definition cellOfPos :: "int \<Rightarrow> vec3 \<Rightarrow> real \<Rightarrow> vec3 \<Rightarrow> int" where
  "cellOfPos gridResolution gridMin inverseCellWidth boidPosition =
     (let xIdx = \<lfloor>(vx boidPosition - vx gridMin) * inverseCellWidth\<rfloor>;
          yIdx = \<lfloor>(vy boidPosition - vy gridMin) * inverseCellWidth\<rfloor>;
          zIdx = \<lfloor>(vz boidPosition - vz gridMin) * inverseCellWidth\<rfloor>
      in gridIndex3Dto1D xIdx yIdx zIdx gridResolution)"

definition kernComputeIndices ::
  "int \<Rightarrow> int \<Rightarrow> vec3 \<Rightarrow> real \<Rightarrow> vec3 list \<Rightarrow> int list \<Rightarrow> int list
     \<Rightarrow> (int list \<times> int list) option" where
  "kernComputeIndices N gridResolution gridMin inverseCellWidth pos indices gridIndices =
     forEach (threads N)
       (\<lambda>index (indices, gridIndices).
          do {
            indices' \<leftarrow> wr indices index index;
            boidPosition \<leftarrow> rd pos index;
            gridIndices' \<leftarrow>
              wr gridIndices index
                (cellOfPos gridResolution gridMin inverseCellWidth boidPosition);
            Some (indices', gridIndices')
          })
       (indices, gridIndices)"

section \<open>Cell head lookup: \<^verbatim>\<open>InitializeGridCellIndex\<close> and \<^verbatim>\<open>renewGridCellIndex\<close>\<close>

text \<open>
  \<^verbatim>\<open>InitializeGridCellIndex\<close> stores \<open>-1\<close> in every cell below
  \<open>gridSideCount\<^sup>3\<close>; the drivers launch at least that many threads.
\<close>

definition InitializeGridCellIndex :: "int list \<Rightarrow> int \<Rightarrow> int list option" where
  "InitializeGridCellIndex gridCellIndex gridSideCount =
     forEach (threads (gridSideCount * gridSideCount * gridSideCount))
       (\<lambda>index cells. wr cells index (- 1))
       gridCellIndex"

text \<open>
  The threads of \<^verbatim>\<open>renewGridCellIndex\<close> store into \<^verbatim>\<open>gridCellIndex[gridNumber]\<close>, a
  cell that the other threads of the same grid cell store into as well. The order in
  which the stores land is not fixed by the source: the launch takes it as the list
  \<open>order\<close> of thread indices, of which those below \<open>N\<close> run.
\<close>

definition renewGridCellIndex ::
  "int list \<Rightarrow> int \<Rightarrow> int list \<Rightarrow> int list \<Rightarrow> int list \<Rightarrow> int list option" where
  "renewGridCellIndex order N gridCellStartIndices gridCellIndex particleGridIndices =
     forEach (filter (\<lambda>index. 0 \<le> index \<and> index < N) order)
       (\<lambda>index cells.
          do {
            gridNumber \<leftarrow> rd particleGridIndices index;
            startIndex \<leftarrow> rd gridCellStartIndices index;
            wr cells gridNumber startIndex
          })
       gridCellIndex"

section \<open>Velocity update, brute force: \<^verbatim>\<open>kernUpdateVelocityBruteForce\<close>\<close>

definition BoidDistanceCalculation :: "vec3 \<Rightarrow> vec3 \<Rightarrow> real" where
  "BoidDistanceCalculation pos1 pos2 = vlength (vsub pos1 pos2)"

text \<open>
  \<^verbatim>\<open>computeVelocityChange\<close> runs three loops over all \<open>N\<close> boids, one per rule. Its
  first statement returns without a value when \<open>iSelf \<ge> N\<close>, which the kernel never
  lets happen; that return is \<open>None\<close>.
\<close>

definition computeVelocityChange :: "int \<Rightarrow> int \<Rightarrow> vec3 list \<Rightarrow> vec3 list \<Rightarrow> vec3 option" where
  "computeVelocityChange N iSelf pos vel =
     (if iSelf \<ge> N then None
      else
        do {
          thisPos \<leftarrow> rd pos iSelf;
          originalSpeed \<leftarrow> rd vel iSelf;
          (perceivedCenter, count1) \<leftarrow>
            forEach [0..N - 1]
              (\<lambda>i (perceivedCenter, count1).
                 if i \<noteq> iSelf then
                   do {
                     testPos1 \<leftarrow> rd pos i;
                     Some (if BoidDistanceCalculation testPos1 thisPos < rule1Distance
                           then (vadd perceivedCenter testPos1, count1 + 1)
                           else (perceivedCenter, count1))
                   }
                 else Some (perceivedCenter, count1))
              (vzero, 0 :: int);
          let perceivedCenter = (if count1 \<noteq> 0 then vdiv perceivedCenter count1 else thisPos);
          cVector \<leftarrow>
            forEach [0..N - 1]
              (\<lambda>j cVector.
                 if j \<noteq> iSelf then
                   do {
                     testPos2 \<leftarrow> rd pos j;
                     Some (if BoidDistanceCalculation testPos2 thisPos < rule2Distance
                           then (if BoidDistanceCalculation testPos2 thisPos < 100
                                 then vsub cVector (vsub testPos2 thisPos)
                                 else cVector)
                           else cVector)
                   }
                 else Some cVector)
              vzero;
          (perceivedVelocity, count2) \<leftarrow>
            forEach [0..N - 1]
              (\<lambda>k (perceivedVelocity, count2).
                 if k \<noteq> iSelf then
                   do {
                     testPos3 \<leftarrow> rd pos k;
                     testVel3 \<leftarrow> rd vel k;
                     Some (if BoidDistanceCalculation testPos3 thisPos < rule3Distance
                           then (vadd perceivedVelocity testVel3, count2 + 1)
                           else (perceivedVelocity, count2))
                   }
                 else Some (perceivedVelocity, count2))
              (vzero, 0 :: int);
          let perceivedVelocity =
                (if count2 \<noteq> 0 then vdiv perceivedVelocity count2 else perceivedVelocity);
          Some (vadd (vadd (vadd originalSpeed
                              (vscale (vsub perceivedCenter thisPos) rule1Scale))
                        (vscale cVector rule2Scale))
                  (vscale perceivedVelocity rule3Scale))
        })"

text \<open>
  The clamp every velocity kernel applies before it stores the velocity:
  \<^verbatim>\<open>if (glm::length(v) > maxSpeed) v = glm::normalize(v) * maxSpeed;\<close>
\<close>

definition clampSpeed :: "vec3 \<Rightarrow> vec3" where
  "clampSpeed v = (if vlength v > maxSpeed then vscale (normalize_vec3 v) maxSpeed else v)"

definition kernUpdateVelocityBruteForce ::
  "int \<Rightarrow> vec3 list \<Rightarrow> vec3 list \<Rightarrow> vec3 list \<Rightarrow> vec3 list option" where
  "kernUpdateVelocityBruteForce N pos vel1 vel2 =
     forEach (threads N)
       (\<lambda>indexNumber vel2.
          do {
            updatedVel \<leftarrow> computeVelocityChange N indexNumber pos vel1;
            wr vel2 indexNumber (clampSpeed updatedVel)
          })
       vel2"

section \<open>Velocity update on the grid\<close>

text \<open>
  The sums the three rules keep while a grid kernel visits candidates, and the block of
  three tests the source repeats for every candidate.
\<close>

record rules =
  perceivedCenter :: vec3
  count1 :: int
  vectorC :: vec3
  perceivedVelocity :: vec3
  count3 :: int

definition rules0 :: rules where
  "rules0 = \<lparr>perceivedCenter = vzero, count1 = 0, vectorC = vzero,
              perceivedVelocity = vzero, count3 = 0\<rparr>"

definition applyRules :: "vec3 \<Rightarrow> vec3 \<Rightarrow> vec3 \<Rightarrow> rules \<Rightarrow> rules" where
  "applyRules currentPosition testPos testVel a =
     (let a1 = (if vlength (vsub testPos currentPosition) < rule1Distance
                then a\<lparr>perceivedCenter := vadd (perceivedCenter a) testPos,
                       count1 := count1 a + 1\<rparr>
                else a);
          a2 = (if vlength (vsub testPos currentPosition) < rule2Distance
                then (if vlength (vsub testPos currentPosition) < 100
                      then a1\<lparr>vectorC := vsub (vectorC a1) (vsub testPos currentPosition)\<rparr>
                      else a1)
                else a1)
      in (if vlength (vsub testPos currentPosition) < rule3Distance
          then a2\<lparr>perceivedVelocity := vadd (perceivedVelocity a2) testVel,
                  count3 := count3 a2 + 1\<rparr>
          else a2))"

text \<open>The closing statements of the grid kernels' device functions.\<close>

definition finalSpeed :: "vec3 \<Rightarrow> vec3 \<Rightarrow> rules \<Rightarrow> vec3" where
  "finalSpeed currentPosition currentVelocity a =
     (let pc = (if count1 a = 0 then currentPosition
                else vdiv (perceivedCenter a) (count1 a));
          pv = (if count3 a \<noteq> 0 then vdiv (perceivedVelocity a) (count3 a)
                else perceivedVelocity a)
      in vadd (vadd (vadd currentVelocity (vscale (vsub pc currentPosition) rule1Scale))
                 (vscale (vectorC a) rule2Scale))
           (vscale pv rule3Scale))"

text \<open>C's integer division truncates towards zero; dividing by zero is undefined.\<close>

definition cdiv :: "int \<Rightarrow> int \<Rightarrow> int option" where
  "cdiv a b = (if b = 0 then None else Some (sgn a * sgn b * (\<bar>a\<bar> div \<bar>b\<bar>)))"

text \<open>
  \<^verbatim>\<open>newUpdateVelocity\<close>, the device function of the scattered kernel. Its parameter
  \<^verbatim>\<open>gridCellWidth\<close> is never read and is left out. The first loop runs over the range
  of the boid's own sorted position; the three nested loops run over the 27 cells
  around the boid's cell and skip the cell itself. Every candidate is reached through
  \<^verbatim>\<open>particleArrayIndices\<close>.
\<close>

definition newUpdateVelocity ::
  "int \<Rightarrow> int \<Rightarrow> int \<Rightarrow> vec3 list \<Rightarrow> vec3 list \<Rightarrow> int list \<Rightarrow> int list \<Rightarrow> int list
     \<Rightarrow> int list \<Rightarrow> int list \<Rightarrow> int \<Rightarrow> vec3 option" where
  "newUpdateVelocity N index boidIndex pos vel particleArrayIndices particleGridIndices
     gridCellStartIndices gridCellEndIndices gridCellIndex gridSideCount =
     do {
       currentPosition \<leftarrow> rd pos boidIndex;
       currentVelocity \<leftarrow> rd vel boidIndex;
       gridIndex \<leftarrow> rd particleGridIndices index;
       gridIdx3Z \<leftarrow> cdiv gridIndex (gridSideCount * gridSideCount);
       gridIdx3Y \<leftarrow>
         cdiv (gridIndex - gridIdx3Z * gridSideCount * gridSideCount) gridSideCount;
       let gridIdx3X =
             gridIndex - gridIdx3Z * gridSideCount * gridSideCount - gridIdx3Y * gridSideCount;
       startIndex \<leftarrow> rd gridCellStartIndices index;
       endIndex \<leftarrow> rd gridCellEndIndices index;
       a \<leftarrow>
         forEach [startIndex..endIndex]
           (\<lambda>i a.
              if i \<noteq> index then
                do {
                  tempBoidIndex \<leftarrow> rd particleArrayIndices i;
                  testPosition \<leftarrow> rd pos tempBoidIndex;
                  testVelocity \<leftarrow> rd vel tempBoidIndex;
                  Some (applyRules currentPosition testPosition testVelocity a)
                }
              else Some a)
           rules0;
       a \<leftarrow>
         forEach [gridIdx3X - 1..gridIdx3X + 1]
           (\<lambda>j. forEach [gridIdx3Y - 1..gridIdx3Y + 1]
              (\<lambda>k. forEach [gridIdx3Z - 1..gridIdx3Z + 1]
                 (\<lambda>m a.
                    let testGridIndexBeighbor = gridIndex3Dto1D j k m gridSideCount in
                    if testGridIndexBeighbor \<noteq> - 1 then
                      if testGridIndexBeighbor \<noteq> gridIndex then
                        do {
                          startPoint \<leftarrow> rd gridCellIndex testGridIndexBeighbor;
                          if startPoint \<noteq> - 1 then
                            do {
                              endPoint \<leftarrow> rd gridCellEndIndices startPoint;
                              forEach [startPoint..endPoint]
                                (\<lambda>n a.
                                   do {
                                     testBoidIndex \<leftarrow> rd particleArrayIndices n;
                                     testPos \<leftarrow> rd pos testBoidIndex;
                                     testVel \<leftarrow> rd vel testBoidIndex;
                                     Some (applyRules currentPosition testPos testVel a)
                                   })
                                a
                            }
                          else Some a
                        }
                      else Some a
                    else Some a)))
           a;
       Some (finalSpeed currentPosition currentVelocity a)
     }"

text \<open>
  The scattered kernel. Of its parameters only those its body reads are kept. The new
  velocity goes to \<^verbatim>\<open>vel2[boidIndex]\<close>.
\<close>

definition kernUpdateVelNeighborSearchScattered ::
  "int \<Rightarrow> int list \<Rightarrow> int list \<Rightarrow> int list \<Rightarrow> int list \<Rightarrow> int list \<Rightarrow> int
     \<Rightarrow> vec3 list \<Rightarrow> vec3 list \<Rightarrow> vec3 list \<Rightarrow> vec3 list option" where
  "kernUpdateVelNeighborSearchScattered N gridCellStartIndices gridCellEndIndices
     particleArrayIndices particleGridIndices gridCellIndex gridSideCount pos vel1 vel2 =
     forEach (threads N)
       (\<lambda>index vel2.
          do {
            boidIndex \<leftarrow> rd particleArrayIndices index;
            updatedVel \<leftarrow>
              newUpdateVelocity N index boidIndex pos vel1 particleArrayIndices
                particleGridIndices gridCellStartIndices gridCellEndIndices gridCellIndex
                gridSideCount;
            wr vel2 boidIndex (clampSpeed updatedVel)
          })
       vel2"

text \<open>
  \<^verbatim>\<open>RearangeVelAndPos\<close> copies position and velocity of the boid at each sorted position
  into two buffers in sorted order.
\<close>

definition RearangeVelAndPos ::
  "int \<Rightarrow> int list \<Rightarrow> vec3 list \<Rightarrow> vec3 list \<Rightarrow> vec3 list \<Rightarrow> vec3 list
     \<Rightarrow> (vec3 list \<times> vec3 list) option" where
  "RearangeVelAndPos N particleArrayIndices pos vel arrPos arrVel =
     forEach (threads N)
       (\<lambda>index (arrPos, arrVel).
          do {
            boidIndex \<leftarrow> rd particleArrayIndices index;
            velocity \<leftarrow> rd vel boidIndex;
            position \<leftarrow> rd pos boidIndex;
            arrPos' \<leftarrow> wr arrPos index position;
            arrVel' \<leftarrow> wr arrVel index velocity;
            Some (arrPos', arrVel')
          })
       (arrPos, arrVel)"

text \<open>
  \<^verbatim>\<open>CoherentUpDateVelocity\<close>, the device function of the coherent kernel: the loops of
  \<^verbatim>\<open>newUpdateVelocity\<close>, with position and velocity read at the sorted position itself.
\<close>

definition CoherentUpDateVelocity ::
  "int \<Rightarrow> int \<Rightarrow> vec3 list \<Rightarrow> vec3 list \<Rightarrow> int list \<Rightarrow> int list \<Rightarrow> int list
     \<Rightarrow> int list \<Rightarrow> int list \<Rightarrow> int \<Rightarrow> vec3 option" where
  "CoherentUpDateVelocity N index pos vel particleArrayIndices particleGridIndices
     gridCellStartIndices gridCellEndIndices gridCellIndex gridSideCount =
     do {
       currentPosition \<leftarrow> rd pos index;
       currentVelocity \<leftarrow> rd vel index;
       gridIndex \<leftarrow> rd particleGridIndices index;
       gridIdx3Z \<leftarrow> cdiv gridIndex (gridSideCount * gridSideCount);
       gridIdx3Y \<leftarrow>
         cdiv (gridIndex - gridIdx3Z * gridSideCount * gridSideCount) gridSideCount;
       let gridIdx3X =
             gridIndex - gridIdx3Z * gridSideCount * gridSideCount - gridIdx3Y * gridSideCount;
       startIndex \<leftarrow> rd gridCellStartIndices index;
       endIndex \<leftarrow> rd gridCellEndIndices index;
       a \<leftarrow>
         forEach [startIndex..endIndex]
           (\<lambda>i a.
              if i \<noteq> index then
                do {
                  testPosition \<leftarrow> rd pos i;
                  testVelocity \<leftarrow> rd vel i;
                  Some (applyRules currentPosition testPosition testVelocity a)
                }
              else Some a)
           rules0;
       a \<leftarrow>
         forEach [gridIdx3X - 1..gridIdx3X + 1]
           (\<lambda>j. forEach [gridIdx3Y - 1..gridIdx3Y + 1]
              (\<lambda>k. forEach [gridIdx3Z - 1..gridIdx3Z + 1]
                 (\<lambda>m a.
                    let testGridIndexBeighbor = gridIndex3Dto1D j k m gridSideCount in
                    if testGridIndexBeighbor \<noteq> - 1 then
                      if testGridIndexBeighbor \<noteq> gridIndex then
                        do {
                          startPoint \<leftarrow> rd gridCellIndex testGridIndexBeighbor;
                          if startPoint \<noteq> - 1 then
                            do {
                              endPoint \<leftarrow> rd gridCellEndIndices startPoint;
                              forEach [startPoint..endPoint]
                                (\<lambda>n a.
                                   do {
                                     testPos \<leftarrow> rd pos n;
                                     testVel \<leftarrow> rd vel n;
                                     Some (applyRules currentPosition testPos testVel a)
                                   })
                                a
                            }
                          else Some a
                        }
                      else Some a
                    else Some a)))
           a;
       Some (finalSpeed currentPosition currentVelocity a)
     }"

text \<open>The coherent kernel stores the new velocity at the sorted position, \<^verbatim>\<open>vel2[index]\<close>.\<close>

definition kernUpdateVelNeighborSearchCoherent ::
  "int \<Rightarrow> int list \<Rightarrow> int list \<Rightarrow> int list \<Rightarrow> int list \<Rightarrow> int list \<Rightarrow> int
     \<Rightarrow> vec3 list \<Rightarrow> vec3 list \<Rightarrow> vec3 list \<Rightarrow> vec3 list option" where
  "kernUpdateVelNeighborSearchCoherent N gridCellStartIndices gridCellEndIndices
     particleArrayIndices particleGridIndices gridCellIndex gridSideCount pos vel1 vel2 =
     forEach (threads N)
       (\<lambda>index vel2.
          do {
            updateVel \<leftarrow>
              CoherentUpDateVelocity N index pos vel1 particleArrayIndices
                particleGridIndices gridCellStartIndices gridCellEndIndices gridCellIndex
                gridSideCount;
            wr vel2 index (clampSpeed updateVel)
          })
       vel2"

section \<open>The simulation driver\<close>

text \<open>
  The globals of the file that the drivers use. A buffer that \<^verbatim>\<open>cudaFree\<close> has released
  has no element that may still be accessed: it is the empty list, so that every access
  to it is outside the buffer.
\<close>

record sim =
  numObjects :: int
  dev_pos :: "vec3 list"
  dev_vel1 :: "vec3 list"
  dev_vel2 :: "vec3 list"
  devGridCellnumber :: "int list"
  devBoidIndex :: "int list"
  dev_gridCellStartIndices :: "int list"
  dev_gridCellEndIndices :: "int list"
  gridCellIndex :: "int list"
  gridCellCount :: int
  gridSideCount :: int
  gridCellWidth :: real
  gridInverseCellWidth :: real
  gridMinimum :: vec3

text \<open>
  How a driver call ends: it returns (\<open>Done\<close>), it stops the process through
  \<^verbatim>\<open>checkCUDAError\<close>, which prints and calls \<^verbatim>\<open>exit(EXIT_FAILURE)\<close> (\<open>Exit\<close>), or one
  of its kernels accesses memory outside a buffer (\<open>Undefined\<close>).
\<close>

datatype 'a outcome = Done 'a | Exit | Undefined

definition run :: "'a option \<Rightarrow> 'a outcome" where
  "run r = (case r of None \<Rightarrow> Undefined | Some a \<Rightarrow> Done a)"

text \<open>The conversion \<^verbatim>\<open>(int)\<close> of a \<^verbatim>\<open>float\<close> truncates towards zero.\<close>

definition int_of_float :: "real \<Rightarrow> int" where
  "int_of_float r = (if 0 \<le> r then \<lfloor>r\<rfloor> else \<lceil>r\<rceil>)"

text \<open>
  What \<^verbatim>\<open>cudaMalloc\<close> leaves in a fresh buffer is not determined by the source;
  \<open>fresh\<close> gives the element at each position of each fresh buffer.
\<close>

record fresh =
  fresh_vec :: "nat \<Rightarrow> vec3"
  fresh_int :: "nat \<Rightarrow> int"

text \<open>
  \<^verbatim>\<open>Boids::initSimulation\<close>. After every \<^verbatim>\<open>cudaMalloc\<close> and after the launch of
  \<^verbatim>\<open>kernGenerateRandomPosArray\<close> the function calls \<^verbatim>\<open>checkCUDAErrorWithLine\<close>;
  \<open>cudaError\<close> says whether the CUDA runtime reports an error at one of these checks.
  \<open>rand index\<close> is the vector \<^verbatim>\<open>generateRandomVec3(1, index)\<close> of the random number
  library. \<^verbatim>\<open>gridMinimum\<close> is a global that the function decreases rather than assigns:
  the state before the call is an argument.
\<close>

definition initSimulation :: "int \<Rightarrow> bool \<Rightarrow> (int \<Rightarrow> vec3) \<Rightarrow> fresh \<Rightarrow> sim \<Rightarrow> sim outcome" where
  "initSimulation N cudaError rand mem s =
     (if cudaError then Exit
      else
        let cellWidth = 2 * max (max rule1Distance rule2Distance) rule3Distance;
            halfSideCount = int_of_float (scene_scale / cellWidth) + 1;
            sideCount = 2 * halfSideCount;
            halfGridWidth = cellWidth * real_of_int halfSideCount
        in Done
             \<lparr>numObjects = N,
              dev_pos = map (\<lambda>index. vscale (rand index) scene_scale) (threads N),
              dev_vel1 = map (fresh_vec mem) [0..<nat N],
              dev_vel2 = map (fresh_vec mem) [0..<nat N],
              devGridCellnumber = map (fresh_int mem) [0..<nat N],
              devBoidIndex = map (fresh_int mem) [0..<nat N],
              dev_gridCellStartIndices = map (fresh_int mem) [0..<nat N],
              dev_gridCellEndIndices = map (fresh_int mem) [0..<nat N],
              gridCellIndex = map (fresh_int mem) [0..<nat (sideCount * sideCount * sideCount)],
              gridCellCount = sideCount * sideCount * sideCount,
              gridSideCount = sideCount,
              gridCellWidth = cellWidth,
              gridInverseCellWidth = 1 / cellWidth,
              gridMinimum =
                Vec3 (vx (gridMinimum s) - halfGridWidth) (vy (gridMinimum s) - halfGridWidth)
                  (vz (gridMinimum s) - halfGridWidth)\<rparr>)"

text \<open>
  \<^verbatim>\<open>cudaMemcpy(dst, src, sizeof(glm::vec3) * n, cudaMemcpyDeviceToDevice)\<close>: the first
  \<open>n\<close> elements of \<open>src\<close> replace those of \<open>dst\<close>.
\<close>

definition cudaMemcpy :: "'a list \<Rightarrow> 'a list \<Rightarrow> int \<Rightarrow> 'a list option" where
  "cudaMemcpy dst src n =
     (if n \<le> 0 then Some dst
      else if n \<le> int (length src) \<and> n \<le> int (length dst)
      then Some (take (nat n) src @ drop (nat n) dst)
      else None)"

text \<open>
  \<^verbatim>\<open>thrust::sort_by_key(keys, keys + n, values)\<close> is library code. It orders the first
  \<open>n\<close> keys ascending and moves each value with its key; the library does not promise
  an order among equal keys. The model keeps equal keys in their order (\<open>sort_key\<close> is
  stable), which is one of the orders the library may produce.
\<close>

definition sort_by_key :: "int \<Rightarrow> int list \<Rightarrow> int list \<Rightarrow> (int list \<times> int list) option" where
  "sort_by_key n keys vals =
     (if n \<le> 0 then Some (keys, vals)
      else if n \<le> int (length keys) \<and> n \<le> int (length vals)
      then
        (let ps = sort_key fst (zip (take (nat n) keys) (take (nat n) vals))
         in Some (map fst ps @ drop (nat n) keys, map snd ps @ drop (nat n) vals))
      else None)"

text \<open>
  \<^verbatim>\<open>Boids::stepSimulationNaive\<close>. The velocity buffers are swapped by copying
  \<^verbatim>\<open>dev_vel2\<close> over \<^verbatim>\<open>dev_vel1\<close>.
\<close>

definition stepSimulationNaive :: "real \<Rightarrow> sim \<Rightarrow> sim outcome" where
  "stepSimulationNaive dt s =
     run (do {
       vel2 \<leftarrow> kernUpdateVelocityBruteForce (numObjects s) (dev_pos s) (dev_vel1 s) (dev_vel2 s);
       pos \<leftarrow> kernUpdatePos (numObjects s) dt (dev_pos s) vel2;
       vel1 \<leftarrow> cudaMemcpy (dev_vel1 s) vel2 (numObjects s);
       Some (s\<lparr>dev_pos := pos, dev_vel1 := vel1, dev_vel2 := vel2\<rparr>)
     })"

text \<open>
  The stages both grid drivers run first: index, reset of the cell lookup, sort, range
  table, cell lookup. \<open>order\<close> is the order in which the stores of
  \<^verbatim>\<open>renewGridCellIndex\<close> land.
\<close>

definition buildGrid :: "int list \<Rightarrow> sim \<Rightarrow> sim option" where
  "buildGrid order s =
     do {
       (boidIndex, cellNumber) \<leftarrow>
         kernComputeIndices (numObjects s) (gridSideCount s) (gridMinimum s)
           (gridInverseCellWidth s) (dev_pos s) (devBoidIndex s) (devGridCellnumber s);
       cells \<leftarrow> InitializeGridCellIndex (gridCellIndex s) (gridSideCount s);
       (cellNumber, boidIndex) \<leftarrow> sort_by_key (numObjects s) cellNumber boidIndex;
       (starts, ends) \<leftarrow>
         kernIdentifyCellStartEnd (numObjects s) cellNumber (dev_gridCellStartIndices s)
           (dev_gridCellEndIndices s);
       cells \<leftarrow> renewGridCellIndex order (numObjects s) starts cells cellNumber;
       Some (s\<lparr>devGridCellnumber := cellNumber, devBoidIndex := boidIndex,
               dev_gridCellStartIndices := starts, dev_gridCellEndIndices := ends,
               gridCellIndex := cells\<rparr>)
     }"

text \<open>\<^verbatim>\<open>Boids::stepSimulationScatteredGrid\<close>.\<close>

definition stepSimulationScatteredGrid :: "int list \<Rightarrow> real \<Rightarrow> sim \<Rightarrow> sim outcome" where
  "stepSimulationScatteredGrid order dt s =
     run (do {
       g \<leftarrow> buildGrid order s;
       vel2 \<leftarrow>
         kernUpdateVelNeighborSearchScattered (numObjects g) (dev_gridCellStartIndices g)
           (dev_gridCellEndIndices g) (devBoidIndex g) (devGridCellnumber g)
           (gridCellIndex g) (gridSideCount g) (dev_pos g) (dev_vel1 g) (dev_vel2 g);
       pos \<leftarrow> kernUpdatePos (numObjects g) dt (dev_pos g) vel2;
       vel1 \<leftarrow> cudaMemcpy (dev_vel1 g) vel2 (numObjects g);
       Some (g\<lparr>dev_pos := pos, dev_vel1 := vel1, dev_vel2 := vel2\<rparr>)
     })"

text \<open>
  \<^verbatim>\<open>Boids::stepSimulationCoherentGrid\<close>. The two buffers it allocates are written
  in full by \<^verbatim>\<open>RearangeVelAndPos\<close> before anything reads them; their first content is
  taken to be zero vectors. After the position update the sorted velocities and the
  sorted positions are copied over \<^verbatim>\<open>dev_vel1\<close> and \<^verbatim>\<open>dev_pos\<close>.
\<close>

definition stepSimulationCoherentGrid :: "int list \<Rightarrow> real \<Rightarrow> sim \<Rightarrow> sim outcome" where
  "stepSimulationCoherentGrid order dt s =
     run (do {
       g \<leftarrow> buildGrid order s;
       (rearrangePos, rearrangeVel) \<leftarrow>
         RearangeVelAndPos (numObjects g) (devBoidIndex g) (dev_pos g) (dev_vel1 g)
           (replicate (nat (numObjects g)) vzero) (replicate (nat (numObjects g)) vzero);
       vel2 \<leftarrow>
         kernUpdateVelNeighborSearchCoherent (numObjects g) (dev_gridCellStartIndices g)
           (dev_gridCellEndIndices g) (devBoidIndex g) (devGridCellnumber g)
           (gridCellIndex g) (gridSideCount g) rearrangePos rearrangeVel (dev_vel2 g);
       rearrangePos \<leftarrow> kernUpdatePos (numObjects g) dt rearrangePos vel2;
       vel1 \<leftarrow> cudaMemcpy (dev_vel1 g) vel2 (numObjects g);
       pos \<leftarrow> cudaMemcpy (dev_pos g) rearrangePos (numObjects g);
       Some (g\<lparr>dev_pos := pos, dev_vel1 := vel1, dev_vel2 := vel2\<rparr>)
     })"

text \<open>\<^verbatim>\<open>Boids::endSimulation\<close> releases the eight buffers and changes nothing else.\<close>

definition endSimulation :: "sim \<Rightarrow> sim" where
  "endSimulation s =
     s\<lparr>dev_vel1 := [], dev_vel2 := [], dev_pos := [], devGridCellnumber := [],
       devBoidIndex := [], dev_gridCellStartIndices := [], dev_gridCellEndIndices := [],
       gridCellIndex := []\<rparr>"

text \<open>
  The states the drivers work on between \<^verbatim>\<open>initSimulation\<close> and
  \<^verbatim>\<open>endSimulation\<close>: every buffer has the size it was allocated with.
\<close>

definition allocatedSim :: "sim \<Rightarrow> bool" where
  "allocatedSim s \<longleftrightarrow>
     0 \<le> numObjects s \<and> 0 \<le> gridSideCount s
     \<and> length (dev_pos s) = nat (numObjects s)
     \<and> length (dev_vel1 s) = nat (numObjects s)
     \<and> length (dev_vel2 s) = nat (numObjects s)
     \<and> length (devGridCellnumber s) = nat (numObjects s)
     \<and> length (devBoidIndex s) = nat (numObjects s)
     \<and> length (dev_gridCellStartIndices s) = nat (numObjects s)
     \<and> length (dev_gridCellEndIndices s) = nat (numObjects s)
     \<and> length (gridCellIndex s) = nat (gridSideCount s * gridSideCount s * gridSideCount s)"

text \<open>The domain of the simulation: every coordinate within \<open>scene_scale\<close> of the origin.\<close>

definition inBox :: "vec3 \<Rightarrow> bool" where
  "inBox p \<longleftrightarrow>
     - scene_scale \<le> vx p \<and> vx p \<le> scene_scale
     \<and> - scene_scale \<le> vy p \<and> vy p \<le> scene_scale
     \<and> - scene_scale \<le> vz p \<and> vz p \<le> scene_scale"

text \<open>
  The globals before \<^verbatim>\<open>initSimulation\<close>: C++ zero-initialises them, no buffer is
  allocated.
\<close>

definition startup :: sim where
  "startup =
     \<lparr>numObjects = 0, dev_pos = [], dev_vel1 = [], dev_vel2 = [], devGridCellnumber = [],
      devBoidIndex = [], dev_gridCellStartIndices = [], dev_gridCellEndIndices = [],
      gridCellIndex = [], gridCellCount = 0, gridSideCount = 0, gridCellWidth = 0,
      gridInverseCellWidth = 0, gridMinimum = vzero\<rparr>"

text \<open>Fresh buffers that happen to hold zeros.\<close>

definition zeroFresh :: fresh where
  "zeroFresh = \<lparr>fresh_vec = (\<lambda>_. vzero), fresh_int = (\<lambda>_. 0)\<rparr>"

text \<open>
  States of a simulation on the grid of \<^verbatim>\<open>initSimulation\<close> (22 cells a side of
  width 10, minimum corner at \<open>-110\<close>), used as concrete inputs below.

  \<open>fourBoids\<close>: one boid far away in cell 5567, two boids in cell 5577 and one boid in
  the next cell 5578, two units from its neighbours; all at rest.
\<close>

definition fourBoids :: sim where
  "fourBoids =
     \<lparr>numObjects = 4,
      dev_pos = [Vec3 (- 95) 0 0, Vec3 9 0 0, Vec3 9 1 0, Vec3 11 0 0],
      dev_vel1 = [Vec3 0 0 0, Vec3 0 0 0, Vec3 0 0 0, Vec3 0 0 0],
      dev_vel2 = [Vec3 0 0 0, Vec3 0 0 0, Vec3 0 0 0, Vec3 0 0 0],
      devGridCellnumber = [0, 0, 0, 0],
      devBoidIndex = [0, 0, 0, 0],
      dev_gridCellStartIndices = [0, 0, 0, 0],
      dev_gridCellEndIndices = [0, 0, 0, 0],
      gridCellIndex = replicate 10648 0,
      gridCellCount = 10648,
      gridSideCount = 22,
      gridCellWidth = 10,
      gridInverseCellWidth = 1 / 10,
      gridMinimum = Vec3 (- 110) (- 110) (- 110)\<rparr>"

text \<open>
  \<open>twoBoids\<close>: two boids a hundred units apart, boid 0 in the cell with the larger
  code, each with a velocity below the speed cap.
\<close>

definition twoBoids :: sim where
  "twoBoids =
     \<lparr>numObjects = 2,
      dev_pos = [Vec3 50 0 0, Vec3 (- 50) 0 0],
      dev_vel1 = [Vec3 1 0 0, Vec3 0 (1 / 2) 0],
      dev_vel2 = [Vec3 0 0 0, Vec3 0 0 0],
      devGridCellnumber = [0, 0],
      devBoidIndex = [0, 0],
      dev_gridCellStartIndices = [0, 0],
      dev_gridCellEndIndices = [0, 0],
      gridCellIndex = replicate 10648 0,
      gridCellCount = 10648,
      gridSideCount = 22,
      gridCellWidth = 10,
      gridInverseCellWidth = 1 / 10,
      gridMinimum = Vec3 (- 110) (- 110) (- 110)\<rparr>"



text \<open>
  A state with positions and velocities listed in the order of the sorted boid indices:
  position \<open>k\<close> of each buffer holds what the state holds for boid
  \<^verbatim>\<open>devBoidIndex[k]\<close>.
\<close>

definition inSortedOrder :: "sim \<Rightarrow> sim" where
  "inSortedOrder s =
     s\<lparr>dev_pos := map (\<lambda>b. dev_pos s ! nat b) (devBoidIndex s),
       dev_vel1 := map (\<lambda>b. dev_vel1 s ! nat b) (devBoidIndex s),
       dev_vel2 := map (\<lambda>b. dev_vel2 s ! nat b) (devBoidIndex s)\<rparr>"


section \<open>Properties\<close>

subsection \<open>Loops and launches\<close>

text \<open>
  A launch is reasoned about with an invariant indexed by the number of threads that
  have run: \<open>forEach_threads_invariant\<close> for what holds if the launch returns,
  \<open>forEach_threads_total\<close> for a launch that returns.
\<close>

lemma forEach_append:
  "forEach (xs @ ys) body s = (case forEach xs body s of None \<Rightarrow> None | Some s' \<Rightarrow> forEach ys body s')"
  by (induction xs arbitrary: s) (auto split: option.splits)

lemma forEach_snoc:
  "forEach (xs @ [x]) body s = Option.bind (forEach xs body s) (body x)"
  by (cases "forEach xs body s") (auto simp: forEach_append split: option.splits)

lemma forEach_threads_invariant:
  assumes "forEach (map int [0..<n]) body s = Some s'"
    and "I 0 s"
    and "\<And>k t t'. k < n \<Longrightarrow> I k t \<Longrightarrow> body (int k) t = Some t' \<Longrightarrow> I (Suc k) t'"
  shows "I n s'"
  using assms
proof (induction n arbitrary: s')
  case 0
  then show ?case by simp
next
  case (Suc n)
  from Suc.prems(1) obtain t where t: "forEach (map int [0..<n]) body s = Some t"
    and b: "body (int n) t = Some s'"
    by (auto simp: forEach_snoc bind_eq_Some_conv)
  have "I n t"
    using Suc.IH [OF t Suc.prems(2)] Suc.prems(3) by simp
  then show ?case using Suc.prems(3) [of n t s'] b by simp
qed

lemma forEach_threads_total:
  assumes "I 0 s"
    and "\<And>k t. k < n \<Longrightarrow> I k t \<Longrightarrow> \<exists>t'. body (int k) t = Some t' \<and> I (Suc k) t'"
  shows "\<exists>s'. forEach (map int [0..<n]) body s = Some s' \<and> I n s'"
  using assms
proof (induction n)
  case 0
  then show ?case by simp
next
  case (Suc n)
  then obtain t where t: "forEach (map int [0..<n]) body s = Some t" and i: "I n t"
    by (metis less_Suc_eq)
  from Suc.prems(2) [of n t] i obtain t' where "body (int n) t = Some t'" "I (Suc n) t'"
    by auto
  with t show ?case
    by (auto simp: forEach_snoc)
qed

lemma forEach_threads_fail:
  assumes "k < n" and "\<And>t. body (int k) t = None"
  shows "forEach (map int [0..<n]) body s = None"
proof -
  from assms(1) have "[0..<n] = [0..<k] @ k # [Suc k..<n]"
    by (metis le_add1 less_imp_add_positive upt_add_eq_append upt_conv_Cons plus_nat.add_0)
  then have "map int [0..<n] = map int [0..<k] @ int k # map int [Suc k..<n]" by simp
  then show ?thesis
    by (simp add: forEach_append assms(2) split: option.splits)
qed

text \<open>
  A launch whose thread \<open>i\<close> stores a value \<open>c i\<close> at a slot \<open>p i\<close> of its own: the
  slots hold the values when all threads have run.
\<close>

lemma forEach_threads_scatter:
  assumes len: "length a = m"
    and slots: "\<forall>i < n. p i < m"
    and inj: "\<forall>i < n. \<forall>j < n. p i = p j \<longrightarrow> i = j"
    and body: "\<And>k t. k < n \<Longrightarrow> length t = m \<Longrightarrow> body (int k) t = Some (t[p k := c k])"
  shows "\<exists>r. forEach (map int [0..<n]) body a = Some r \<and> length r = m
           \<and> (\<forall>i < n. r ! p i = c i)"
proof -
  let ?I = "\<lambda>k t. length t = m \<and> (\<forall>i < k. t ! p i = c i)"
  have "\<exists>s'. forEach (map int [0..<n]) body a = Some s' \<and> ?I n s'"
  proof (rule forEach_threads_total [where I = ?I])
    show "?I 0 a" using len by simp
  next
    fix k t
    assume k: "k < n" and i: "?I k t"
    have "?I (Suc k) (t[p k := c k])"
    proof (intro conjI allI impI)
      show "length (t[p k := c k]) = m" using i by simp
    next
      fix j assume j: "j < Suc k"
      show "t[p k := c k] ! p j = c j"
      proof (cases "j = k")
        case True
        with i slots k show ?thesis by simp
      next
        case False
        with j k have "j < k" "j < n" by simp_all
        with inj k False have "p k \<noteq> p j" by blast
        with i \<open>j < k\<close> show ?thesis by simp
      qed
    qed
    with body [OF k] i show "\<exists>t'. body (int k) t = Some t' \<and> ?I (Suc k) t'" by simp
  qed
  then show ?thesis by blast
qed

lemma forEach_list_total:
  assumes "I s"
    and "\<And>t u. t \<in> set ts \<Longrightarrow> I u \<Longrightarrow> \<exists>u'. body t u = Some u' \<and> I u'"
  shows "\<exists>s'. forEach ts body s = Some s' \<and> I s'"
  using assms
proof (induction ts arbitrary: s)
  case Nil
  then show ?case by simp
next
  case (Cons t ts)
  from Cons.prems obtain u where u: "body t s = Some u" "I u"
    by (meson list.set_intros(1))
  from Cons.IH [OF u(2)] Cons.prems(2) obtain s' where "forEach ts body u = Some s'" "I s'"
    by (meson list.set_intros(2))
  with u show ?case by simp
qed

lemma forEach_list_invariant:
  assumes "forEach ts body s = Some s'"
    and "I s"
    and "\<And>t u u'. t \<in> set ts \<Longrightarrow> I u \<Longrightarrow> body t u = Some u' \<Longrightarrow> I u'"
  shows "I s'"
  using assms
proof (induction ts arbitrary: s)
  case Nil
  then show ?case by simp
next
  case (Cons t ts)
  from Cons.prems(1) obtain u where u: "body t s = Some u" "forEach ts body u = Some s'"
    by (auto split: option.splits)
  have "I u" using Cons.prems(2,3) u(1) by (meson list.set_intros(1))
  then show ?case using Cons.IH [OF u(2)] Cons.prems(3) by (meson list.set_intros(2))
qed




lemma forEach_fill:
  "n \<le> length a \<Longrightarrow>
   forEach (map int [0..<n]) (\<lambda>i c. wr c i v) a = Some (replicate n v @ drop n a)"
proof (induction n)
  case 0
  then show ?case by simp
next
  case (Suc n)
  then have "n < length a" by simp
  then have "(replicate n v @ drop n a)[n := v] = replicate (Suc n) v @ drop (Suc n) a"
    by (simp add: list_update_append replicate_append_same flip: Cons_nth_drop_Suc)
  with Suc show ?case
    by (simp add: forEach_snoc wr_def)
qed

lemma cudaMemcpy_full:
  "length dst = nat n \<Longrightarrow> length src = nat n \<Longrightarrow> cudaMemcpy dst src n = Some src"
  by (auto simp: cudaMemcpy_def)

lemma rd_gather:
  assumes "\<forall>b \<in> set pai. 0 \<le> b \<and> nat b < length xs"
  shows "rd (map (\<lambda>b. xs ! nat b) pai) i = Option.bind (rd pai i) (rd xs)"
proof (cases "0 \<le> i \<and> i < int (length pai)")
  case True
  then have "nat i < length pai" by linarith
  then have "pai ! nat i \<in> set pai" by simp
  with assms have "0 \<le> pai ! nat i \<and> nat (pai ! nat i) < length xs" by blast
  with True show ?thesis by (auto simp: rd_def)
next
  case False
  then show ?thesis by (auto simp: rd_def)
qed

lemma rd_twice:
  "Option.bind (rd a i) (\<lambda>t. Option.bind (f t) (\<lambda>p. Option.bind (rd a i) (\<lambda>t'. G t p t')))
   = Option.bind (rd a i) (\<lambda>t. Option.bind (f t) (\<lambda>p. G t p t))"
  by (cases "rd a i") simp_all

subsection \<open>Vectors and the speed clamp\<close>

lemma vdot_self_nonneg: "0 \<le> vdot v v"
  by (simp add: vdot_def)

lemma vlength_nonneg: "0 \<le> vlength v"
  by (simp add: vlength_def vdot_self_nonneg)

lemma vlength_less_iff: "vlength v < r \<longleftrightarrow> 0 < r \<and> vdot v v < r * r"
proof (cases "0 < r")
  case True
  then have "sqrt (vdot v v) < r \<longleftrightarrow> sqrt (vdot v v) < sqrt (r * r)" by simp
  also have "\<dots> \<longleftrightarrow> vdot v v < r * r" by (rule real_sqrt_less_iff)
  finally show ?thesis using True by (simp add: vlength_def)
next
  case False
  with vlength_nonneg [of v] show ?thesis by auto
qed

lemma vlength_gr_iff: "r < vlength v \<longleftrightarrow> r < 0 \<or> r * r < vdot v v"
proof (cases "0 \<le> r")
  case True
  then have "r < sqrt (vdot v v) \<longleftrightarrow> sqrt (r * r) < sqrt (vdot v v)" by simp
  also have "\<dots> \<longleftrightarrow> r * r < vdot v v" by (rule real_sqrt_less_iff)
  finally show ?thesis using True by (auto simp add: vlength_def)
next
  case False
  with vlength_nonneg [of v] show ?thesis by auto
qed

lemma vlength_vscale: "vlength (vscale v c) = \<bar>c\<bar> * vlength v"
proof -
  have "vdot (vscale v c) (vscale v c) = c\<^sup>2 * vdot v v"
    by (simp add: vdot_def vscale_def power2_eq_square algebra_simps)
  then show ?thesis
    by (simp add: vlength_def real_sqrt_mult)
qed

lemma vscale_vscale: "vscale (vscale v a) b = vscale v (a * b)"
  by (simp add: vscale_def mult.assoc)

lemma clampSpeed_exceeds:
  assumes "maxSpeed < vlength v"
  shows "clampSpeed v = vscale v (maxSpeed / vlength v) \<and> 0 < maxSpeed / vlength v
         \<and> vlength (clampSpeed v) = maxSpeed"
proof -
  from assms have pos: "0 < vlength v" by (simp add: maxSpeed_def)
  have c: "clampSpeed v = vscale v (maxSpeed / vlength v)"
    using assms by (simp add: clampSpeed_def normalize_vec3_def vscale_vscale vlength_def)
  have "vlength (vscale v (maxSpeed / vlength v)) = maxSpeed"
    using pos by (simp add: vlength_vscale maxSpeed_def)
  with c pos show ?thesis by (simp add: maxSpeed_def)
qed


lemma vlength_clampSpeed: "vlength (clampSpeed v) \<le> maxSpeed"
proof (cases "maxSpeed < vlength v")
  case True
  from clampSpeed_exceeds [OF this] have "vlength (clampSpeed v) = maxSpeed" by blast
  then show ?thesis by simp
next
  case False
  then show ?thesis by (simp add: clampSpeed_def)
qed


subsection \<open>The kernels\<close>




lemma kernUpdatePos_nth:
  assumes "kernUpdatePos N dt pos vel = Some pos'" and "length pos = nat N"
  shows "length pos' = nat N \<and>
         (\<forall>i < nat N. pos' ! i = wrapPos (vadd (pos ! i) (vscale (vel ! i) dt)))"
proof -
  let ?I = "\<lambda>k a. length a = nat N
      \<and> (\<forall>i < k. a ! i = wrapPos (vadd (pos ! i) (vscale (vel ! i) dt)))
      \<and> (\<forall>i \<ge> k. a ! i = pos ! i)"
  have "?I (nat N) pos'"
  proof (rule forEach_threads_invariant [where I = ?I, OF assms(1) [unfolded kernUpdatePos_def threads_def]])
    show "?I 0 pos" using assms(2) by simp
  next
    fix k t t'
    assume k: "k < nat N" and i: "?I k t"
      and b: "do { thisPos \<leftarrow> rd t (int k); v \<leftarrow> rd vel (int k);
                   wr t (int k) (wrapPos (vadd thisPos (vscale v dt))) } = Some t'"
    from b i k have t': "t' = t[k := wrapPos (vadd (pos ! k) (vscale (vel ! k) dt))]"
      by (auto simp: rd_def wr_def bind_eq_Some_conv split: if_splits)
    show "?I (Suc k) t'"
      using i k unfolding t' by (auto simp: nth_list_update less_Suc_eq)
  qed
  then show ?thesis by simp
qed

lemma kernUpdatePos_total:
  assumes "length pos = nat N" and "length vel = nat N"
  shows "\<exists>pos'. kernUpdatePos N dt pos vel = Some pos'"
proof -
  let ?I = "\<lambda>(k::nat) (a::vec3 list). length a = nat N"
  have "\<exists>s'. forEach (map int [0..<nat N])
          (\<lambda>index pos. do { thisPos \<leftarrow> rd pos index; v \<leftarrow> rd vel index;
                   wr pos index (wrapPos (vadd thisPos (vscale v dt))) }) pos = Some s' \<and> ?I (nat N) s'"
    by (rule forEach_threads_total [where I = ?I]) (use assms in \<open>auto simp: rd_def wr_def\<close>)
  then show ?thesis by (auto simp: kernUpdatePos_def threads_def)
qed

lemma kernUpdatePos_eq:
  assumes "length pos = nat N" and "length vel = nat N"
  shows "kernUpdatePos N dt pos vel
         = Some (map (\<lambda>i. wrapPos (vadd (pos ! i) (vscale (vel ! i) dt))) [0..<nat N])"
proof -
  from kernUpdatePos_total [OF assms] obtain pos' where p: "kernUpdatePos N dt pos vel = Some pos'"
    by blast
  from kernUpdatePos_nth [OF p assms(1)]
  have "pos' = map (\<lambda>i. wrapPos (vadd (pos ! i) (vscale (vel ! i) dt))) [0..<nat N]"
    by (intro nth_equalityI) auto
  with p show ?thesis by simp
qed

lemma kernUpdatePos_gather:
  assumes lp: "length pai = nat N" and sp: "set pai = set (map int [0..<nat N])"
    and lpos: "length pos = nat N" and lvel: "length vel = nat N"
  shows "kernUpdatePos N dt (map (\<lambda>b. pos ! nat b) pai) (map (\<lambda>b. vel ! nat b) pai)
         = map_option (\<lambda>p. map (\<lambda>b. p ! nat b) pai) (kernUpdatePos N dt pos vel)"
proof -
  have valid: "nat (pai ! k) < nat N" if "k < nat N" for k
  proof -
    from that lp have "pai ! k \<in> set pai" by simp
    with sp show ?thesis by auto
  qed
  show ?thesis
    using lp valid
    by (simp add: kernUpdatePos_eq lpos lvel) (auto intro!: nth_equalityI)
qed

lemma kernComputeIndices_eq:
  assumes "length pos = nat N" and "length indices = nat N" and "length gridIndices = nat N"
  shows "kernComputeIndices N gridResolution gridMin inverseCellWidth pos indices gridIndices
         = Some (map int [0..<nat N],
                 map (cellOfPos gridResolution gridMin inverseCellWidth) pos)"
proof -
  let ?c = "cellOfPos gridResolution gridMin inverseCellWidth"
  let ?I = "\<lambda>k (a, b). length a = nat N \<and> length b = nat N
      \<and> (\<forall>i < k. a ! i = int i \<and> b ! i = ?c (pos ! i))"
  let ?body = "\<lambda>index (indices, gridIndices).
          do {
            indices' \<leftarrow> wr indices index index;
            boidPosition \<leftarrow> rd pos index;
            gridIndices' \<leftarrow> wr gridIndices index (?c boidPosition);
            Some (indices', gridIndices')
          }"
  have "\<exists>s'. forEach (map int [0..<nat N]) ?body (indices, gridIndices) = Some s' \<and> ?I (nat N) s'"
  proof (rule forEach_threads_total [where I = ?I])
    show "?I 0 (indices, gridIndices)" using assms by simp
  next
    fix k t
    assume k: "k < nat N" and i: "?I k t"
    obtain a b where t: "t = (a, b)" by (cases t)
    have "?body (int k) t = Some (a[k := int k], b[k := ?c (pos ! k)])"
      using k i assms unfolding t by (auto simp: rd_def wr_def)
    moreover have "?I (Suc k) (a[k := int k], b[k := ?c (pos ! k)])"
      using k i unfolding t by (auto simp: nth_list_update less_Suc_eq)
    ultimately show "\<exists>t'. ?body (int k) t = Some t' \<and> ?I (Suc k) t'" by blast
  qed
  then obtain a b where r: "forEach (map int [0..<nat N]) ?body (indices, gridIndices) = Some (a, b)"
    and inv: "?I (nat N) (a, b)"
    by auto
  from inv have "a = map int [0..<nat N]"
    by (intro nth_equalityI) auto
  moreover from inv assms have "b = map ?c pos"
    by (intro nth_equalityI) auto
  ultimately show ?thesis
    using r by (simp add: kernComputeIndices_def threads_def)
qed

lemma gridIndex3Dto1D_range:
  assumes "0 \<le> x" "x < r" "0 \<le> y" "y < r" "0 \<le> z" "z < r"
  shows "0 \<le> gridIndex3Dto1D x y z r \<and> gridIndex3Dto1D x y z r < r * r * r"
proof -
  have r: "0 < r" using assms by linarith
  have "y * r \<le> (r - 1) * r" using assms r by (intro mult_right_mono) auto
  moreover have "z * (r * r) \<le> (r - 1) * (r * r)" using assms r by (intro mult_right_mono) auto
  moreover have "0 \<le> y * r" "0 \<le> z * (r * r)" using assms r by auto
  ultimately have "0 \<le> x + y * r + z * (r * r)" "x + y * r + z * (r * r) < r * r * r"
    using assms by (auto simp: algebra_simps)
  then show ?thesis using assms by (simp add: gridIndex3Dto1D_def algebra_simps)
qed

lemma InitializeGridCellIndex_full:
  "length cells = nat (side * side * side) \<Longrightarrow>
   InitializeGridCellIndex cells side = Some (replicate (length cells) (- 1))"
  by (simp add: InitializeGridCellIndex_def threads_def forEach_fill)

lemma sort_by_key_props:
  assumes "length keys = nat n" and "length vals = nat n"
  shows "\<exists>keys' vals'. sort_by_key n keys vals = Some (keys', vals')
           \<and> length keys' = nat n \<and> length vals' = nat n
           \<and> set keys' = set keys \<and> set vals' = set vals
           \<and> (distinct vals \<longrightarrow> distinct vals') \<and> sorted keys'"
proof (cases "n \<le> 0")
  case True
  with assms show ?thesis by (simp add: sort_by_key_def)
next
  case False
  let ?ps = "sort_key fst (zip keys vals)"
  have eq: "sort_by_key n keys vals = Some (map fst ?ps, map snd ?ps)"
    using False assms by (simp add: sort_by_key_def Let_def)
  have len: "length keys = length vals" using assms by simp
  have "set (map fst ?ps) = set (map fst (zip keys vals))"
    by (simp only: set_map set_sort)
  then have k: "set (map fst ?ps) = set keys" using len by simp
  have "set (map snd ?ps) = set (map snd (zip keys vals))"
    by (simp only: set_map set_sort)
  then have v: "set (map snd ?ps) = set vals" using len by simp
  have d: "distinct (map snd ?ps)" if "distinct vals"
  proof -
    from that len have "distinct (map snd (zip keys vals))" by simp
    then have "distinct (zip keys vals)" "inj_on snd (set (zip keys vals))"
      by (simp_all add: distinct_map)
    then show ?thesis by (simp add: distinct_map)
  qed
  have s: "sorted (map fst ?ps)" by (rule sorted_sort_key)
  show ?thesis using eq k v d s assms by simp
qed




text \<open>
  What the two scans of \<^verbatim>\<open>kernIdentifyCellStartEnd\<close> return. \<open>scanDown\<close> stops at the
  leftmost position of the run of equal keys that holds \<open>k\<close>, \<open>scanUp\<close> at the rightmost;
  each reads the key one position beyond the run, so a run that touches an end of the
  array gives \<open>None\<close>.
\<close>

lemma scanDown_unfold:
  "scanDown g k = Some j \<longleftrightarrow>
     1 \<le> k \<and> k < int (length g)
     \<and> (if g ! nat (k - 1) = g ! nat k then scanDown g (k - 1) = Some j else j = k)"
  by (subst scanDown.simps) (auto simp: rd_def split: option.splits)

lemma scanUp_unfold:
  "scanUp g p = Some q \<longleftrightarrow>
     0 \<le> p \<and> p + 1 < int (length g)
     \<and> (if g ! nat p = g ! nat (p + 1) then scanUp g (p + 1) = Some q else q = p)"
  by (subst scanUp.simps) (auto simp: rd_def split: option.splits)

lemma scanDown_result:
  "scanDown g k = Some j \<Longrightarrow>
   1 \<le> j \<and> j \<le> k \<and> k < int (length g)
   \<and> (\<forall>m. j \<le> m \<and> m \<le> k \<longrightarrow> g ! nat m = g ! nat k)
   \<and> g ! nat (j - 1) \<noteq> g ! nat k"
proof (induction g k rule: scanDown.induct)
  case (1 g k)
  from "1.prems" have b: "1 \<le> k" "k < int (length g)"
    and c: "if g ! nat (k - 1) = g ! nat k then scanDown g (k - 1) = Some j else j = k"
    unfolding scanDown_unfold [of g k] by blast+
  show ?case
  proof (cases "g ! nat (k - 1) = g ! nat k")
    case True
    with c have r: "scanDown g (k - 1) = Some j" by simp
    from b True have "rd g (k - 1) = Some (g ! nat (k - 1))" "rd g k = Some (g ! nat k)"
      "g ! nat (k - 1) = g ! nat k"
      by (simp_all add: rd_def)
    from "1.IH" [OF this r] have ih: "1 \<le> j" "j \<le> k - 1"
      "\<forall>m. j \<le> m \<and> m \<le> k - 1 \<longrightarrow> g ! nat m = g ! nat (k - 1)"
      "g ! nat (j - 1) \<noteq> g ! nat (k - 1)"
      by blast+
    have run: "\<forall>m. j \<le> m \<and> m \<le> k \<longrightarrow> g ! nat m = g ! nat k"
    proof (intro allI impI)
      fix m assume m: "j \<le> m \<and> m \<le> k"
      show "g ! nat m = g ! nat k"
      proof (cases "m = k")
        case False
        with m have "j \<le> m \<and> m \<le> k - 1" by linarith
        with ih(3) have "g ! nat m = g ! nat (k - 1)" by blast
        then show ?thesis using True by (rule trans)
      qed (rule arg_cong [where f = "\<lambda>x. g ! nat x"])
    qed
    have le: "j \<le> k" using ih(2) by linarith
    have ne: "g ! nat (j - 1) \<noteq> g ! nat k" using ih(4) True by metis
    from ih(1) le b(2) run ne show ?thesis by blast
  next
    case False
    with c have jk: "j = k" by metis
    have run: "\<forall>m. j \<le> m \<and> m \<le> k \<longrightarrow> g ! nat m = g ! nat k"
      unfolding jk by (metis order.antisym)
    from b False run show ?thesis unfolding jk by blast
  qed
qed

lemma scanUp_result:
  "scanUp g p = Some q \<Longrightarrow>
   0 \<le> p \<and> p \<le> q \<and> q + 1 < int (length g)
   \<and> (\<forall>m. p \<le> m \<and> m \<le> q \<longrightarrow> g ! nat m = g ! nat p)
   \<and> g ! nat (q + 1) \<noteq> g ! nat p"
proof (induction g p rule: scanUp.induct)
  case (1 g p)
  from "1.prems" have b: "0 \<le> p" "p + 1 < int (length g)"
    and c: "if g ! nat p = g ! nat (p + 1) then scanUp g (p + 1) = Some q else q = p"
    unfolding scanUp_unfold [of g p] by blast+
  show ?case
  proof (cases "g ! nat p = g ! nat (p + 1)")
    case True
    with c have r: "scanUp g (p + 1) = Some q" by simp
    from b True have "rd g p = Some (g ! nat p)" "rd g (p + 1) = Some (g ! nat (p + 1))"
      "g ! nat p = g ! nat (p + 1)"
      by (simp_all add: rd_def)
    from "1.IH" [OF this r] have ih: "p + 1 \<le> q" "q + 1 < int (length g)"
      "\<forall>m. p + 1 \<le> m \<and> m \<le> q \<longrightarrow> g ! nat m = g ! nat (p + 1)"
      "g ! nat (q + 1) \<noteq> g ! nat (p + 1)"
      by blast+
    have run: "\<forall>m. p \<le> m \<and> m \<le> q \<longrightarrow> g ! nat m = g ! nat p"
    proof (intro allI impI)
      fix m assume m: "p \<le> m \<and> m \<le> q"
      show "g ! nat m = g ! nat p"
      proof (cases "m = p")
        case False
        with m have "p + 1 \<le> m \<and> m \<le> q" by linarith
        with ih(3) have "g ! nat m = g ! nat (p + 1)" by blast
        then show ?thesis using True [symmetric] by (rule trans)
      qed (rule arg_cong [where f = "\<lambda>x. g ! nat x"])
    qed
    have le: "p \<le> q" using ih(1) by linarith
    have ne: "g ! nat (q + 1) \<noteq> g ! nat p" using ih(4) True by metis
    from b(1) le ih(2) run ne show ?thesis by blast
  next
    case False
    with c have qp: "q = p" by metis
    have run: "\<forall>m. p \<le> m \<and> m \<le> q \<longrightarrow> g ! nat m = g ! nat p"
      unfolding qp by (metis order.antisym)
    have ne: "g ! nat (p + 1) \<noteq> g ! nat p" using False by metis
    from b run ne show ?thesis unfolding qp by blast
  qed
qed

text \<open>
  The values stored by a thread whose neighbour holds the same key: the \<^verbatim>\<open>else\<close> branches
  store \<^verbatim>\<open>k - 1\<close> and \<^verbatim>\<open>p + 1\<close>, the positions next to the run, which hold another key.
\<close>

lemma startOf_inside_run:
  assumes "startOf g index = Some s" and "g ! nat (index - 1) = g ! nat index"
  shows "0 \<le> s \<and> s < index \<and> g ! nat s \<noteq> g ! nat index
         \<and> (\<forall>m. s < m \<and> m \<le> index \<longrightarrow> g ! nat m = g ! nat index)"
proof -
  from assms obtain k where k: "scanDown g index = Some k" and s: "s = k - 1"
    by (auto simp: startOf_def rd_def bind_eq_Some_conv split: if_splits)
  from scanDown_result [OF k] have r: "1 \<le> k" "k \<le> index"
    "\<forall>m. k \<le> m \<and> m \<le> index \<longrightarrow> g ! nat m = g ! nat index"
    "g ! nat (k - 1) \<noteq> g ! nat index"
    by blast+
  have "\<forall>m. s < m \<and> m \<le> index \<longrightarrow> k \<le> m \<and> m \<le> index"
    unfolding s by simp
  with r(3) have run: "\<forall>m. s < m \<and> m \<le> index \<longrightarrow> g ! nat m = g ! nat index"
    by blast
  from r(1,2) have "0 \<le> s" "s < index" unfolding s by simp_all
  with r(4) run show ?thesis unfolding s by blast
qed

lemma endOf_inside_run:
  assumes "endOf g index = Some e" and "g ! nat index = g ! nat (index + 1)"
  shows "index < e \<and> e < int (length g) \<and> g ! nat e \<noteq> g ! nat index
         \<and> (\<forall>m. index \<le> m \<and> m < e \<longrightarrow> g ! nat m = g ! nat index)"
proof -
  from assms obtain p where p: "scanUp g index = Some p" and e: "e = p + 1"
    by (auto simp: endOf_def rd_def bind_eq_Some_conv split: if_splits)
  from scanUp_result [OF p] have r: "index \<le> p" "p + 1 < int (length g)"
    "\<forall>m. index \<le> m \<and> m \<le> p \<longrightarrow> g ! nat m = g ! nat index"
    "g ! nat (p + 1) \<noteq> g ! nat index"
    by blast+
  have "\<forall>m. index \<le> m \<and> m < e \<longrightarrow> index \<le> m \<and> m \<le> p"
    unfolding e by simp
  with r(3) have run: "\<forall>m. index \<le> m \<and> m < e \<longrightarrow> g ! nat m = g ! nat index"
    by blast
  from r(1) have "index < e" unfolding e by simp
  with r(2,4) run show ?thesis unfolding e by blast
qed







lemma kernIdentifyCellStartEnd_length:
  assumes "kernIdentifyCellStartEnd N g st en = Some (st', en')"
  shows "length st' = length st \<and> length en' = length en"
proof -
  let ?I = "\<lambda>(k::nat) (a :: int list, b :: int list). length a = length st \<and> length b = length en"
  have "?I (nat N) (st', en')"
    by (rule forEach_threads_invariant [where I = ?I,
          OF assms [unfolded kernIdentifyCellStartEnd_def threads_def]])
       (auto simp: wr_def bind_eq_Some_conv split: if_splits)
  then show ?thesis by simp
qed

lemma renewGridCellIndex_total:
  assumes "\<forall>c \<in> set keys. 0 \<le> c \<and> c < int (length cells)"
    and "length starts = nat N" and "length keys = nat N"
  shows "\<exists>cells'. renewGridCellIndex order N starts cells keys = Some cells'
           \<and> length cells' = length cells"
  unfolding renewGridCellIndex_def
proof (rule forEach_list_total [where I = "\<lambda>c. length c = length cells"])
  show "length cells = length cells" by simp
next
  fix t and u :: "int list"
  assume t: "t \<in> set (filter (\<lambda>index. 0 \<le> index \<and> index < N) order)"
    and u: "length u = length cells"
  from t have b: "0 \<le> t" "t < N" by auto
  with assms have "keys ! nat t \<in> set keys" by simp
  with assms(1) have "0 \<le> keys ! nat t \<and> keys ! nat t < int (length cells)" by blast
  with b u assms(2,3)
  show "\<exists>u'. do { gridNumber \<leftarrow> rd keys t; startIndex \<leftarrow> rd starts t;
                   wr u gridNumber startIndex } = Some u' \<and> length u' = length cells"
    by (simp add: rd_def wr_def)
qed

lemma renewGridCellIndex_length:
  assumes "renewGridCellIndex order N starts cells keys = Some cells'"
  shows "length cells' = length cells"
  by (rule forEach_list_invariant [where I = "\<lambda>c. length c = length cells",
        OF assms [unfolded renewGridCellIndex_def]])
     (auto simp: wr_def bind_eq_Some_conv split: if_splits)



lemma kernUpdateVelNeighborSearchScattered_clamped:
  assumes "kernUpdateVelNeighborSearchScattered N starts ends pai keys cells side pos vel1 vel2
           = Some vel2'"
  shows "length vel2' = length vel2
         \<and> (\<forall>i < nat N. 0 \<le> pai ! i \<and> nat (pai ! i) < length vel2
               \<and> vlength (vel2' ! nat (pai ! i)) \<le> maxSpeed)"
proof -
  let ?I = "\<lambda>k a. length a = length vel2
      \<and> (\<forall>i < k. 0 \<le> pai ! i \<and> nat (pai ! i) < length vel2
             \<and> vlength (a ! nat (pai ! i)) \<le> maxSpeed)"
  have "?I (nat N) vel2'"
  proof (rule forEach_threads_invariant [where I = ?I,
        OF assms [unfolded kernUpdateVelNeighborSearchScattered_def threads_def]])
    show "?I 0 vel2" by simp
  next
    fix k t t'
    assume k: "k < nat N" and i: "?I k t"
      and b: "do {
            boidIndex \<leftarrow> rd pai (int k);
            updatedVel \<leftarrow>
              newUpdateVelocity N (int k) boidIndex pos vel1 pai keys starts ends cells side;
            wr t boidIndex (clampSpeed updatedVel)
          } = Some t'"
    from b obtain u where bi: "0 \<le> pai ! k" "nat (pai ! k) < length t"
      and t': "t' = t[nat (pai ! k) := clampSpeed u]"
      by (auto simp: rd_def wr_def bind_eq_Some_conv split: if_splits)
    show "?I (Suc k) t'"
      using i bi unfolding t'
      by (auto simp: nth_list_update less_Suc_eq vlength_clampSpeed)
  qed
  then show ?thesis by simp
qed




lemma RearangeVelAndPos_eq:
  assumes "length pai = nat N" and "length arrPos = nat N" and "length arrVel = nat N"
    and "\<forall>b \<in> set pai. 0 \<le> b \<and> nat b < length pos \<and> nat b < length vel"
  shows "RearangeVelAndPos N pai pos vel arrPos arrVel
         = Some (map (\<lambda>b. pos ! nat b) pai, map (\<lambda>b. vel ! nat b) pai)"
proof -
  let ?I = "\<lambda>k (a, b). length a = nat N \<and> length b = nat N
      \<and> (\<forall>i < k. a ! i = pos ! nat (pai ! i) \<and> b ! i = vel ! nat (pai ! i))"
  let ?body = "\<lambda>index (arrPos, arrVel).
          do {
            boidIndex \<leftarrow> rd pai index;
            velocity \<leftarrow> rd vel boidIndex;
            position \<leftarrow> rd pos boidIndex;
            arrPos' \<leftarrow> wr arrPos index position;
            arrVel' \<leftarrow> wr arrVel index velocity;
            Some (arrPos', arrVel')
          }"
  have "\<exists>s'. forEach (map int [0..<nat N]) ?body (arrPos, arrVel) = Some s' \<and> ?I (nat N) s'"
  proof (rule forEach_threads_total [where I = ?I])
    show "?I 0 (arrPos, arrVel)" using assms by simp
  next
    fix k t
    assume k: "k < nat N" and i: "?I k t"
    obtain a b where t: "t = (a, b)" by (cases t)
    from k assms(1) have "pai ! k \<in> set pai" by simp
    with assms(4) have v: "0 \<le> pai ! k" "nat (pai ! k) < length pos" "nat (pai ! k) < length vel"
      by auto
    have "?body (int k) t = Some (a[k := pos ! nat (pai ! k)], b[k := vel ! nat (pai ! k)])"
      using k i assms(1) v unfolding t by (auto simp: rd_def wr_def)
    moreover have "?I (Suc k) (a[k := pos ! nat (pai ! k)], b[k := vel ! nat (pai ! k)])"
      using k i unfolding t by (auto simp: nth_list_update less_Suc_eq)
    ultimately show "\<exists>t'. ?body (int k) t = Some t' \<and> ?I (Suc k) t'" by blast
  qed
  then obtain a b where r: "forEach (map int [0..<nat N]) ?body (arrPos, arrVel) = Some (a, b)"
    and inv: "?I (nat N) (a, b)"
    by auto
  from inv assms(1) have "a = map (\<lambda>b. pos ! nat b) pai" "b = map (\<lambda>b. vel ! nat b) pai"
    by (auto intro!: nth_equalityI)
  then show ?thesis
    using r by (simp add: RearangeVelAndPos_def threads_def)
qed

lemma CoherentUpDateVelocity_gather:
  assumes "\<forall>b \<in> set pai. 0 \<le> b \<and> nat b < length pos"
    and "\<forall>b \<in> set pai. 0 \<le> b \<and> nat b < length vel"
  shows "CoherentUpDateVelocity N index (map (\<lambda>b. pos ! nat b) pai) (map (\<lambda>b. vel ! nat b) pai)
           pai keys starts ends cells side
         = do {
             boidIndex \<leftarrow> rd pai index;
             newUpdateVelocity N index boidIndex pos vel pai keys starts ends cells side
           }"
  by (simp add: CoherentUpDateVelocity_def newUpdateVelocity_def rd_gather [OF assms(1)]
      rd_gather [OF assms(2)] rd_twice cong: if_cong)

lemma kernel_coherent_scattered:
  assumes lp: "length pai = nat N" and d: "distinct pai"
    and sp: "set pai = set (map int [0..<nat N])"
    and lpos: "length pos = nat N" and lvel: "length vel1 = nat N" and lv2: "length vel2 = nat N"
  shows "kernUpdateVelNeighborSearchCoherent N starts ends pai keys cells side
           (map (\<lambda>b. pos ! nat b) pai) (map (\<lambda>b. vel1 ! nat b) pai) vel2
         = map_option (\<lambda>v. map (\<lambda>b. v ! nat b) pai)
             (kernUpdateVelNeighborSearchScattered N starts ends pai keys cells side
                pos vel1 vel2)"
proof -
  let ?n = "nat N"
  let ?gp = "map (\<lambda>b. pos ! nat b) pai" and ?gv = "map (\<lambda>b. vel1 ! nat b) pai"
  let ?f = "\<lambda>i. CoherentUpDateVelocity N i ?gp ?gv pai keys starts ends cells side"
  let ?bodyC = "\<lambda>index vel2. do { updateVel \<leftarrow> ?f index; wr vel2 index (clampSpeed updateVel) }"
  let ?bodyS = "\<lambda>index vel2.
          do {
            boidIndex \<leftarrow> rd pai index;
            updatedVel \<leftarrow>
              newUpdateVelocity N index boidIndex pos vel1 pai keys starts ends cells side;
            wr vel2 boidIndex (clampSpeed updatedVel)
          }"
  have valid: "0 \<le> b \<and> nat b < ?n" if "b \<in> set pai" for b
    using that sp by auto
  have vp: "\<forall>b \<in> set pai. 0 \<le> b \<and> nat b < length pos"
    and vv: "\<forall>b \<in> set pai. 0 \<le> b \<and> nat b < length vel1"
    using valid lpos lvel by auto
  have nth_valid: "0 \<le> pai ! k \<and> nat (pai ! k) < ?n" if "k < ?n" for k
    using valid [of "pai ! k"] that lp by simp
  have rdp: "rd pai (int k) = Some (pai ! k)" if "k < ?n" for k
    using that lp by (auto simp: rd_def)
  have fS: "newUpdateVelocity N (int k) (pai ! k) pos vel1 pai keys starts ends cells side = ?f (int k)"
    if "k < ?n" for k
    using CoherentUpDateVelocity_gather [OF vp vv, of N "int k" keys starts ends cells side]
      rdp [OF that] by simp
  show ?thesis
  proof (cases "\<exists>k < ?n. ?f (int k) = None")
    case True
    then obtain k where k: "k < ?n" and n: "?f (int k) = None" by blast
    have "forEach (map int [0..<?n]) ?bodyC vel2 = None"
      by (rule forEach_threads_fail [OF k]) (simp add: n)
    moreover have "forEach (map int [0..<?n]) ?bodyS vel2 = None"
      by (rule forEach_threads_fail [OF k]) (simp add: rdp [OF k] fS [OF k] n)
    ultimately show ?thesis
      by (simp add: kernUpdateVelNeighborSearchCoherent_def
          kernUpdateVelNeighborSearchScattered_def threads_def)
  next
    case False
    then have some: "\<exists>u. ?f (int k) = Some u" if "k < ?n" for k
      using that by auto
    let ?c = "\<lambda>k. clampSpeed (the (?f (int k)))"
    have "\<exists>r. forEach (map int [0..<?n]) ?bodyC vel2 = Some r \<and> length r = ?n
           \<and> (\<forall>i < ?n. r ! i = ?c i)"
    proof (rule forEach_threads_scatter [OF lv2])
      show "\<forall>i < ?n. i < ?n" by simp
      show "\<forall>i < ?n. \<forall>j < ?n. i = j \<longrightarrow> i = j" by simp
    next
      fix k t assume k: "k < ?n" and t: "length (t :: vec3 list) = ?n"
      from some [OF k] obtain u where u: "?f (int k) = Some u" by blast
      show "?bodyC (int k) t = Some (t[k := ?c k])"
        using k t by (auto simp: u wr_def)
    qed
    then obtain rc where rc: "forEach (map int [0..<?n]) ?bodyC vel2 = Some rc"
      and rcl: "length rc = ?n" and rcv: "\<forall>i < ?n. rc ! i = ?c i"
      by blast
    have "\<exists>r. forEach (map int [0..<?n]) ?bodyS vel2 = Some r \<and> length r = ?n
           \<and> (\<forall>i < ?n. r ! nat (pai ! i) = ?c i)"
    proof (rule forEach_threads_scatter [OF lv2])
      show "\<forall>i < ?n. nat (pai ! i) < ?n" using nth_valid by simp
      show "\<forall>i < ?n. \<forall>j < ?n. nat (pai ! i) = nat (pai ! j) \<longrightarrow> i = j"
      proof (intro allI impI)
        fix i j assume ij: "i < ?n" "j < ?n" "nat (pai ! i) = nat (pai ! j)"
        with nth_valid [of i] nth_valid [of j] have "pai ! i = pai ! j" by linarith
        with d ij lp show "i = j" by (simp add: nth_eq_iff_index_eq)
      qed
    next
      fix k t assume k: "k < ?n" and t: "length (t :: vec3 list) = ?n"
      from some [OF k] obtain u where u: "?f (int k) = Some u" by blast
      show "?bodyS (int k) t = Some (t[nat (pai ! k) := ?c k])"
        using nth_valid [OF k] t by (auto simp: rdp [OF k] fS [OF k] u wr_def)
    qed
    then obtain rs where rs: "forEach (map int [0..<?n]) ?bodyS vel2 = Some rs"
      and rsl: "length rs = ?n" and rsv: "\<forall>i < ?n. rs ! nat (pai ! i) = ?c i"
      by blast
    have "rc = map (\<lambda>b. rs ! nat b) pai"
      using rcl rcv rsv lp by (intro nth_equalityI) auto
    with rc rs show ?thesis
      by (simp add: kernUpdateVelNeighborSearchCoherent_def
          kernUpdateVelNeighborSearchScattered_def threads_def)
  qed
qed

subsection \<open>The drivers\<close>

lemma initSimulation_grid:
  assumes "initSimulation N cudaError rand mem s0 = Done s" and "gridMinimum s0 = vzero"
  shows "gridSideCount s = 22 \<and> gridCellCount s = 10648 \<and> gridInverseCellWidth s = 1 / 10
         \<and> gridMinimum s = Vec3 (- 110) (- 110) (- 110) \<and> numObjects s = N
         \<and> length (gridCellIndex s) = 10648"
  using assms
  by (auto simp: initSimulation_def Let_def rule1Distance_def rule2Distance_def rule3Distance_def
      scene_scale_def int_of_float_def vzero_def split: if_splits)

lemma coord_in_grid:
  assumes "- 100 \<le> c" and "c \<le> (100::real)"
  shows "1 \<le> \<lfloor>(c - (- 110)) * (1 / 10)\<rfloor> \<and> \<lfloor>(c - (- 110)) * (1 / 10)\<rfloor> \<le> 21"
proof -
  have "1 \<le> (c - (- 110)) * (1 / 10)" "(c - (- 110)) * (1 / 10) \<le> 21" using assms by auto
  then show ?thesis by (simp add: le_floor_iff floor_le_iff)
qed

lemma cellOfPos_in_grid:
  assumes "inBox p"
  shows "0 \<le> cellOfPos 22 (Vec3 (- 110) (- 110) (- 110)) (1 / 10) p
         \<and> cellOfPos 22 (Vec3 (- 110) (- 110) (- 110)) (1 / 10) p < 10648"
proof -
  from assms have b: "- 100 \<le> vx p" "vx p \<le> 100" "- 100 \<le> vy p" "vy p \<le> 100"
    "- 100 \<le> vz p" "vz p \<le> 100"
    by (simp_all add: inBox_def scene_scale_def)
  note cx = coord_in_grid [OF b(1,2)] and cy = coord_in_grid [OF b(3,4)] and cz = coord_in_grid [OF b(5,6)]
  have "0 \<le> gridIndex3Dto1D \<lfloor>(vx p - (- 110)) * (1 / 10)\<rfloor> \<lfloor>(vy p - (- 110)) * (1 / 10)\<rfloor>
           \<lfloor>(vz p - (- 110)) * (1 / 10)\<rfloor> 22
        \<and> gridIndex3Dto1D \<lfloor>(vx p - (- 110)) * (1 / 10)\<rfloor> \<lfloor>(vy p - (- 110)) * (1 / 10)\<rfloor>
           \<lfloor>(vz p - (- 110)) * (1 / 10)\<rfloor> 22 < 22 * 22 * 22"
    by (rule gridIndex3Dto1D_range) (use cx cy cz in linarith)+
  then show ?thesis by (simp add: cellOfPos_def Let_def)
qed

lemma kernComputeIndices_in_grid:
  assumes "\<forall>p \<in> set pos. inBox p"
  shows "\<forall>c \<in> set (map (cellOfPos 22 (Vec3 (- 110) (- 110) (- 110)) (1 / 10)) pos).
           0 \<le> c \<and> c < 10648"
  using assms cellOfPos_in_grid by auto

lemma buildGrid_props:
  assumes a: "allocatedSim s" and b: "buildGrid order s = Some g"
  shows "allocatedSim g \<and> numObjects g = numObjects s \<and> dev_pos g = dev_pos s
         \<and> dev_vel1 g = dev_vel1 s \<and> dev_vel2 g = dev_vel2 s
         \<and> gridSideCount g = gridSideCount s
         \<and> distinct (devBoidIndex g)
         \<and> set (devBoidIndex g) = set (map int [0..<nat (numObjects s)])"
proof -
  let ?N = "numObjects s"
  from a have len: "length (dev_pos s) = nat ?N" "length (devBoidIndex s) = nat ?N"
    "length (devGridCellnumber s) = nat ?N"
    "length (dev_gridCellStartIndices s) = nat ?N" "length (dev_gridCellEndIndices s) = nat ?N"
    "length (gridCellIndex s) = nat (gridSideCount s * gridSideCount s * gridSideCount s)"
    by (simp_all add: allocatedSim_def)
  let ?keys = "map (cellOfPos (gridSideCount s) (gridMinimum s) (gridInverseCellWidth s)) (dev_pos s)"
  note k = kernComputeIndices_eq [OF len(1,2,3), of "gridSideCount s" "gridMinimum s"
      "gridInverseCellWidth s"]
  note i = InitializeGridCellIndex_full [OF len(6)]
  from sort_by_key_props [of ?keys ?N "map int [0..<nat ?N]"] len(1)
  obtain keys' vals' where srt: "sort_by_key ?N ?keys (map int [0..<nat ?N]) = Some (keys', vals')"
    and sl: "length keys' = nat ?N" "length vals' = nat ?N"
    and sv: "set vals' = set (map int [0..<nat ?N])" and sd: "distinct vals'"
    by (auto simp: distinct_map)
  from b obtain starts ends cells where
    se: "kernIdentifyCellStartEnd ?N keys' (dev_gridCellStartIndices s) (dev_gridCellEndIndices s)
          = Some (starts, ends)"
    and rn: "renewGridCellIndex order ?N starts (replicate (length (gridCellIndex s)) (- 1)) keys'
          = Some cells"
    and g: "g = s\<lparr>devGridCellnumber := keys', devBoidIndex := vals',
               dev_gridCellStartIndices := starts, dev_gridCellEndIndices := ends,
               gridCellIndex := cells\<rparr>"
    by (auto simp: buildGrid_def k i srt bind_eq_Some_conv)
  from kernIdentifyCellStartEnd_length [OF se] renewGridCellIndex_length [OF rn]
  show ?thesis
    using a sl sv sd len unfolding g by (simp add: allocatedSim_def)
qed










lemma stepSimulationCoherentGrid_eq:
  assumes a: "allocatedSim s"
  shows "stepSimulationCoherentGrid order dt s
         = map_outcome inSortedOrder (stepSimulationScatteredGrid order dt s)"
proof (cases "buildGrid order s")
  case None
  then show ?thesis
    by (simp add: stepSimulationCoherentGrid_def stepSimulationScatteredGrid_def run_def)
next
  case (Some g)
  note bg = buildGrid_props [OF a Some]
  let ?N = "numObjects g" and ?pai = "devBoidIndex g"
  from bg have len: "length (dev_pos g) = nat ?N" "length (dev_vel1 g) = nat ?N"
    "length (dev_vel2 g) = nat ?N" "length ?pai = nat ?N"
    by (auto simp: allocatedSim_def)
  from bg have d: "distinct ?pai" and sp: "set ?pai = set (map int [0..<nat ?N])"
    by auto
  have valid: "\<forall>b \<in> set ?pai. 0 \<le> b \<and> nat b < length (dev_pos g) \<and> nat b < length (dev_vel1 g)"
    using sp len by auto
  note r = RearangeVelAndPos_eq [OF len(4) _ _ valid, of "replicate (nat ?N) vzero"
      "replicate (nat ?N) vzero", simplified]
  note k = kernel_coherent_scattered [OF len(4) d sp len(1,2,3),
      of "dev_gridCellStartIndices g" "dev_gridCellEndIndices g" "devGridCellnumber g"
        "gridCellIndex g" "gridSideCount g"]
  show ?thesis
  proof (cases "kernUpdateVelNeighborSearchScattered ?N (dev_gridCellStartIndices g)
           (dev_gridCellEndIndices g) ?pai (devGridCellnumber g)
           (gridCellIndex g) (gridSideCount g) (dev_pos g) (dev_vel1 g) (dev_vel2 g)")
    case None
    then show ?thesis
      by (simp add: stepSimulationCoherentGrid_def stepSimulationScatteredGrid_def run_def
          Some r k)
  next
    case (Some vel2)
    note ks = this
    from kernUpdateVelNeighborSearchScattered_clamped [OF ks] len
    have vl: "length vel2 = nat ?N" by simp
    have gl: "length (map (\<lambda>b. vel2 ! nat b) ?pai) = nat ?N"
      "length (map (\<lambda>b. dev_pos g ! nat b) ?pai) = nat ?N"
      using len by simp_all
    note p = kernUpdatePos_gather [OF len(4) sp len(1) vl, of dt]
    note ps = kernUpdatePos_eq [OF len(1) vl, of dt]
    show ?thesis
      by (simp add: stepSimulationCoherentGrid_def stepSimulationScatteredGrid_def run_def
          \<open>buildGrid order s = Some g\<close> r k ks p ps cudaMemcpy_full len vl inSortedOrder_def)
  qed
qed

lemma threads_pos: "0 < N \<Longrightarrow> threads N = 0 # map int [1..<nat N]"
  by (simp add: threads_def upt_conv_Cons)

lemma stepSimulationNaive_released:
  assumes "0 < numObjects s"
  shows "stepSimulationNaive dt (endSimulation s) = Undefined"
  using assms
  by (simp add: stepSimulationNaive_def endSimulation_def kernUpdateVelocityBruteForce_def
      computeVelocityChange_def threads_pos rd_def run_def)

lemma buildGrid_released:
  assumes "0 < numObjects s"
  shows "buildGrid order (endSimulation s) = None"
  using assms
  by (simp add: buildGrid_def endSimulation_def kernComputeIndices_def threads_pos wr_def)

subsection \<open>Evaluation on concrete states\<close>

lemmas eval_vec = vdot_def vsub_def vadd_def vscale_def vdiv_def vzero_def
  rule1Distance_def rule2Distance_def rule3Distance_def rule1Scale_def rule2Scale_def
  rule3Scale_def maxSpeed_def scene_scale_def BoidDistanceCalculation_def
  vlength_less_iff vlength_gr_iff

lemmas eval_mem = rd_def wr_def threads_def upt_conv_Cons upto.simps cudaMemcpy_def run_def

lemmas eval_grid = buildGrid_def kernComputeIndices_def cellOfPos_def gridIndex3Dto1D_def
  InitializeGridCellIndex_full sort_by_key_def kernIdentifyCellStartEnd_def
  cellStartEndThread_def startOf_def endOf_def scanDown.simps scanUp.simps
  renewGridCellIndex_def

lemmas eval_rules = newUpdateVelocity_def cdiv_def applyRules_def finalSpeed_def rules0_def
  clampSpeed_def kernUpdatePos_def wrapPos_def wrapCoord_def


lemma allocatedSim_twoBoids: "allocatedSim twoBoids"
  by (simp add: allocatedSim_def twoBoids_def)

lemma allocatedSim_fourBoids: "allocatedSim fourBoids"
  by (simp add: allocatedSim_def fourBoids_def)


lemma buildGrid_twoBoids:
  "buildGrid [0, 1] twoBoids =
     Some (twoBoids\<lparr>devGridCellnumber := [5572, 5582], devBoidIndex := [1, 0],
                     dev_gridCellStartIndices := [0, 1], dev_gridCellEndIndices := [0, 1],
                     gridCellIndex := (replicate 10648 (- 1))[5572 := 0, 5582 := 1]\<rparr>)"
  by (simp add: twoBoids_def eval_grid eval_vec eval_mem)

lemma stepSimulationScatteredGrid_twoBoids:
  "stepSimulationScatteredGrid [0, 1] 1 twoBoids =
     Done (twoBoids\<lparr>devGridCellnumber := [5572, 5582], devBoidIndex := [1, 0],
                     dev_gridCellStartIndices := [0, 1], dev_gridCellEndIndices := [0, 1],
                     gridCellIndex := (replicate 10648 (- 1))[5572 := 0, 5582 := 1],
                     dev_pos := [Vec3 51 0 0, Vec3 (- 50) (1 / 2) 0],
                     dev_vel1 := [Vec3 1 0 0, Vec3 0 (1 / 2) 0],
                     dev_vel2 := [Vec3 1 0 0, Vec3 0 (1 / 2) 0]\<rparr>)"
  unfolding stepSimulationScatteredGrid_def buildGrid_twoBoids
  by (simp add: kernUpdateVelNeighborSearchScattered_def gridIndex3Dto1D_def twoBoids_def
      eval_rules eval_vec eval_mem)

lemma stepSimulationCoherentGrid_twoBoids:
  "stepSimulationCoherentGrid [0, 1] 1 twoBoids =
     Done (twoBoids\<lparr>devGridCellnumber := [5572, 5582], devBoidIndex := [1, 0],
                     dev_gridCellStartIndices := [0, 1], dev_gridCellEndIndices := [0, 1],
                     gridCellIndex := (replicate 10648 (- 1))[5572 := 0, 5582 := 1],
                     dev_pos := [Vec3 (- 50) (1 / 2) 0, Vec3 51 0 0],
                     dev_vel1 := [Vec3 0 (1 / 2) 0, Vec3 1 0 0],
                     dev_vel2 := [Vec3 0 (1 / 2) 0, Vec3 1 0 0]\<rparr>)"
  unfolding stepSimulationCoherentGrid_eq [OF allocatedSim_twoBoids]
    stepSimulationScatteredGrid_twoBoids
  by (simp add: inSortedOrder_def twoBoids_def)

lemma buildGrid_fourBoids:
  "buildGrid [0, 1, 2, 3] fourBoids =
     Some (fourBoids\<lparr>devGridCellnumber := [5567, 5577, 5577, 5578],
                      devBoidIndex := [0, 1, 2, 3],
                      dev_gridCellStartIndices := [0, 1, 0, 3],
                      dev_gridCellEndIndices := [0, 3, 2, 3],
                      gridCellIndex :=
                        (replicate 10648 (- 1))[5567 := 0, 5577 := 0, 5578 := 3]\<rparr>)"
  by (simp add: fourBoids_def eval_grid eval_vec eval_mem)

lemma buildGrid_fourBoids_other_order:
  "buildGrid [0, 2, 1, 3] fourBoids =
     Some (fourBoids\<lparr>devGridCellnumber := [5567, 5577, 5577, 5578],
                      devBoidIndex := [0, 1, 2, 3],
                      dev_gridCellStartIndices := [0, 1, 0, 3],
                      dev_gridCellEndIndices := [0, 3, 2, 3],
                      gridCellIndex :=
                        (replicate 10648 (- 1))[5567 := 0, 5577 := 1, 5578 := 3]\<rparr>)"
  by (simp add: fourBoids_def eval_grid eval_vec eval_mem)

lemma stepSimulationNaive_fourBoids:
  "map_outcome dev_vel2 (stepSimulationNaive 1 fourBoids)
     = Done [Vec3 0 0 0, Vec3 (- (19 / 100)) (- (19 / 200)) 0,
             Vec3 (- (19 / 100)) (19 / 100) 0, Vec3 (19 / 50) (- (19 / 200)) 0]"
  by (simp add: stepSimulationNaive_def fourBoids_def kernUpdateVelocityBruteForce_def
      computeVelocityChange_def eval_rules eval_vec eval_mem)

lemma stepSimulationScatteredGrid_fourBoids:
  "map_outcome dev_vel2 (stepSimulationScatteredGrid [0, 1, 2, 3] 1 fourBoids)
     = Done [Vec3 0 0 0, Vec3 (- (29 / 75)) (- (29 / 300)) 0,
             Vec3 (- (19 / 100)) (19 / 100) 0, Vec3 0 0 0]"
  unfolding stepSimulationScatteredGrid_def buildGrid_fourBoids
  by (simp add: kernUpdateVelNeighborSearchScattered_def gridIndex3Dto1D_def fourBoids_def
      eval_rules eval_vec eval_mem)

lemma stepSimulationScatteredGrid_fourBoids_other_order:
  "map_outcome dev_vel2 (stepSimulationScatteredGrid [0, 2, 1, 3] 1 fourBoids)
     = Done [Vec3 0 0 0, Vec3 (- (29 / 75)) (- (29 / 300)) 0,
             Vec3 (- (19 / 100)) (19 / 100) 0, Vec3 (29 / 75) (- (29 / 300)) 0]"
  unfolding stepSimulationScatteredGrid_def buildGrid_fourBoids_other_order
  by (simp add: kernUpdateVelNeighborSearchScattered_def gridIndex3Dto1D_def fourBoids_def
      eval_rules eval_vec eval_mem)






section \<open>The claims\<close>

subsection \<open>C1: the cell range table\<close>

text \<open>
  Claim C1. On the sorted key sequence of the specification, \<open>[0,0,0,2,2,5]\<close>, the
  threads of the range builder do not store the leftmost and rightmost positions of
  their run. A thread that is not the first of its run stores the position before the
  run as start (thread 4 stores 2, not 3); a thread that is not the last of its run
  stores the position after the run as end (threads 0 and 3 store 3 and 5, not 2 and 4);
  threads 1 and 2, whose run begins at position 0, read the key at position \<open>-1\<close>.
  Lemmas \<open>startOf_inside_run\<close> and \<open>endOf_inside_run\<close> show the same for every key
  sequence.
\<close>

theorem cellStartEnd_spec_example:
  "cellStartEndThread 6 [0, 0, 0, 2, 2, 5] 0 = Some (0, 3)
   \<and> cellStartEndThread 6 [0, 0, 0, 2, 2, 5] 1 = None
   \<and> cellStartEndThread 6 [0, 0, 0, 2, 2, 5] 2 = None
   \<and> cellStartEndThread 6 [0, 0, 0, 2, 2, 5] 3 = Some (3, 5)
   \<and> cellStartEndThread 6 [0, 0, 0, 2, 2, 5] 4 = Some (2, 4)
   \<and> cellStartEndThread 6 [0, 0, 0, 2, 2, 5] 5 = Some (5, 5)
   \<and> kernIdentifyCellStartEnd 6 [0, 0, 0, 2, 2, 5] [0, 0, 0, 0, 0, 0] [0, 0, 0, 0, 0, 0]
       = None"
  by (simp add: cellStartEndThread_def startOf_def endOf_def scanDown.simps scanUp.simps
        rd_def kernIdentifyCellStartEnd_def threads_def wr_def upt_conv_Cons)

subsection \<open>C2: brute force against the scattered grid\<close>

text \<open>
  Claim C2. On \<open>fourBoids\<close> one step of the brute-force strategy and one step of the
  scattered-grid strategy leave different velocities. Boid 1 is the first of the two
  boids of cell 5577 in sorted order: its range runs one position too far and takes in
  boid 3, which the sweep over the neighbouring cells then visits again, so boid 3
  counts twice in all three rules. For boid 3 the result depends on the entry of
  \<^verbatim>\<open>gridCellIndex[5577]\<close>: with 0 it sees neither boid of cell 5577, with 1 it sees
  both and itself.
\<close>

theorem scattered_step_differs_from_brute_force:
  "map_outcome dev_vel2 (stepSimulationNaive 1 fourBoids)
     = Done [Vec3 0 0 0, Vec3 (- (19 / 100)) (- (19 / 200)) 0,
             Vec3 (- (19 / 100)) (19 / 100) 0, Vec3 (19 / 50) (- (19 / 200)) 0]
   \<and> map_outcome dev_vel2 (stepSimulationScatteredGrid [0, 1, 2, 3] 1 fourBoids)
     = Done [Vec3 0 0 0, Vec3 (- (29 / 75)) (- (29 / 300)) 0,
             Vec3 (- (19 / 100)) (19 / 100) 0, Vec3 0 0 0]
   \<and> map_outcome dev_vel2 (stepSimulationScatteredGrid [0, 2, 1, 3] 1 fourBoids)
     = Done [Vec3 0 0 0, Vec3 (- (29 / 75)) (- (29 / 300)) 0,
             Vec3 (- (19 / 100)) (19 / 100) 0, Vec3 (29 / 75) (- (29 / 300)) 0]"
  using stepSimulationNaive_fourBoids stepSimulationScatteredGrid_fourBoids
    stepSimulationScatteredGrid_fourBoids_other_order
  by blast

subsection \<open>C3: the coherent grid against the scattered grid\<close>

text \<open>
  Claim C3, as the code has it. From a state with buffers of their allocated sizes, a
  step of the coherent-grid strategy is the step of the scattered-grid strategy with
  positions and velocities left in the order of the sorted boid indices: both fail
  together, and where they return, position \<open>k\<close> of \<^verbatim>\<open>dev_pos\<close>, \<^verbatim>\<open>dev_vel1\<close> and
  \<^verbatim>\<open>dev_vel2\<close> after the coherent step holds what the scattered step leaves for boid
  \<^verbatim>\<open>devBoidIndex[k]\<close>; every other part of the state is the same. The coherent device
  function visits the same candidates in the same order
  (\<open>CoherentUpDateVelocity_gather\<close>). Nothing is copied back into the order of the
  boid ids.
\<close>

theorem coherent_step_is_scattered_step_in_sorted_order:
  assumes "allocatedSim s"
  shows "stepSimulationCoherentGrid order dt s
         = map_outcome inSortedOrder (stepSimulationScatteredGrid order dt s)"
  by (rule stepSimulationCoherentGrid_eq [OF assms])

theorem coherent_step_is_scattered_step_in_sorted_order_witness:
  "allocatedSim twoBoids
   \<and> stepSimulationCoherentGrid [0, 1] 1 twoBoids
       = Done (twoBoids\<lparr>devGridCellnumber := [5572, 5582], devBoidIndex := [1, 0],
                     dev_gridCellStartIndices := [0, 1], dev_gridCellEndIndices := [0, 1],
                     gridCellIndex := (replicate 10648 (- 1))[5572 := 0, 5582 := 1],
                     dev_pos := [Vec3 (- 50) (1 / 2) 0, Vec3 51 0 0],
                     dev_vel1 := [Vec3 0 (1 / 2) 0, Vec3 1 0 0],
                     dev_vel2 := [Vec3 0 (1 / 2) 0, Vec3 1 0 0]\<rparr>)"
proof -
  have "stepSimulationCoherentGrid [0, 1] 1 twoBoids
       = Done (twoBoids\<lparr>devGridCellnumber := [5572, 5582], devBoidIndex := [1, 0],
                     dev_gridCellStartIndices := [0, 1], dev_gridCellEndIndices := [0, 1],
                     gridCellIndex := (replicate 10648 (- 1))[5572 := 0, 5582 := 1],
                     dev_pos := [Vec3 (- 50) (1 / 2) 0, Vec3 51 0 0],
                     dev_vel1 := [Vec3 0 (1 / 2) 0, Vec3 1 0 0],
                     dev_vel2 := [Vec3 0 (1 / 2) 0, Vec3 1 0 0]\<rparr>)"
    unfolding coherent_step_is_scattered_step_in_sorted_order [OF allocatedSim_twoBoids]
      stepSimulationScatteredGrid_twoBoids
    by (simp add: inSortedOrder_def twoBoids_def)
  with allocatedSim_twoBoids show ?thesis by blast
qed

text \<open>
  The claim as the specification states it fails on \<open>twoBoids\<close>: after one step the
  scattered strategy holds the new position and velocity of boid 0 at index 0, the
  coherent strategy holds those of boid 1 there.
\<close>

theorem coherent_step_not_in_id_order:
  "map_outcome dev_pos (stepSimulationScatteredGrid [0, 1] 1 twoBoids)
     = Done [Vec3 51 0 0, Vec3 (- 50) (1 / 2) 0]
   \<and> map_outcome dev_pos (stepSimulationCoherentGrid [0, 1] 1 twoBoids)
     = Done [Vec3 (- 50) (1 / 2) 0, Vec3 51 0 0]
   \<and> map_outcome dev_vel1 (stepSimulationScatteredGrid [0, 1] 1 twoBoids)
     = Done [Vec3 1 0 0, Vec3 0 (1 / 2) 0]
   \<and> map_outcome dev_vel1 (stepSimulationCoherentGrid [0, 1] 1 twoBoids)
     = Done [Vec3 0 (1 / 2) 0, Vec3 1 0 0]"
  by (simp add: stepSimulationScatteredGrid_twoBoids stepSimulationCoherentGrid_twoBoids)

subsection \<open>C4: the cell head lookup\<close>

text \<open>
  Claim C4. On \<open>fourBoids\<close> the sorted keys are \<open>[5567, 5577, 5577, 5578]\<close>, so the
  first sorted position of cell 5577 is 1. The range builder gives the two positions of
  that cell the starts 1 and 0, and \<^verbatim>\<open>renewGridCellIndex\<close> stores both in
  \<^verbatim>\<open>gridCellIndex[5577]\<close>: the entry is 0 when the store of thread 2 lands last and 1
  when the store of thread 1 lands last.
\<close>

theorem cell_head_depends_on_store_order:
  "kernIdentifyCellStartEnd 4 [5567, 5577, 5577, 5578] [0, 0, 0, 0] [0, 0, 0, 0]
     = Some ([0, 1, 0, 3], [0, 3, 2, 3])
   \<and> map_option (\<lambda>g. (devGridCellnumber g, dev_gridCellStartIndices g, gridCellIndex g ! 5577))
         (buildGrid [0, 1, 2, 3] fourBoids)
       = Some ([5567, 5577, 5577, 5578], [0, 1, 0, 3], 0)
   \<and> map_option (\<lambda>g. (devGridCellnumber g, dev_gridCellStartIndices g, gridCellIndex g ! 5577))
         (buildGrid [0, 2, 1, 3] fourBoids)
       = Some ([5567, 5577, 5577, 5578], [0, 1, 0, 3], 1)"
  unfolding buildGrid_fourBoids buildGrid_fourBoids_other_order
  by (simp add: kernIdentifyCellStartEnd_def cellStartEndThread_def startOf_def endOf_def
      scanDown.simps scanUp.simps eval_mem)

subsection \<open>C5: positions stay in the domain\<close>



subsection \<open>C6: the speed clamp\<close>



subsection \<open>C7: the grid indexer\<close>

text \<open>
  Claim C7. The indexer stores \<open>i\<close> in \<^verbatim>\<open>indices[i]\<close> and, in \<^verbatim>\<open>gridIndices[i]\<close>, the
  code of the cell with the coordinates \<open>\<lfloor>(pos[i] - gridMin) * inverseCellWidth\<rfloor>\<close>.
  The code of a cell with all coordinates in \<open>[0, side)\<close> is \<open>x + y * side + z * side\<^sup>2\<close>,
  which lies in \<open>[0, side\<^sup>3)\<close>; every other triple of coordinates has the code \<open>-1\<close>.
\<close>

theorem kernComputeIndices_encodes:
  assumes "length pos = nat N" and "length indices = nat N" and "length gridIndices = nat N"
  shows "kernComputeIndices N side gridMin inverseCellWidth pos indices gridIndices
           = Some (map int [0..<nat N],
                   map (\<lambda>p. gridIndex3Dto1D \<lfloor>(vx p - vx gridMin) * inverseCellWidth\<rfloor>
                                \<lfloor>(vy p - vy gridMin) * inverseCellWidth\<rfloor>
                                \<lfloor>(vz p - vz gridMin) * inverseCellWidth\<rfloor> side) pos)
         \<and> (0 \<le> x \<and> x < side \<and> 0 \<le> y \<and> y < side \<and> 0 \<le> z \<and> z < side \<longrightarrow>
              gridIndex3Dto1D x y z side = x + y * side + z * side\<^sup>2
              \<and> 0 \<le> gridIndex3Dto1D x y z side \<and> gridIndex3Dto1D x y z side < side ^ 3)
         \<and> (\<not> (0 \<le> x \<and> x < side \<and> 0 \<le> y \<and> y < side \<and> 0 \<le> z \<and> z < side) \<longrightarrow>
              gridIndex3Dto1D x y z side = - 1)"
proof -
  have "(\<lambda>p. gridIndex3Dto1D \<lfloor>(vx p - vx gridMin) * inverseCellWidth\<rfloor>
                \<lfloor>(vy p - vy gridMin) * inverseCellWidth\<rfloor>
                \<lfloor>(vz p - vz gridMin) * inverseCellWidth\<rfloor> side)
        = cellOfPos side gridMin inverseCellWidth"
    by (simp add: cellOfPos_def Let_def fun_eq_iff)
  then have k: "kernComputeIndices N side gridMin inverseCellWidth pos indices gridIndices
           = Some (map int [0..<nat N],
                   map (\<lambda>p. gridIndex3Dto1D \<lfloor>(vx p - vx gridMin) * inverseCellWidth\<rfloor>
                                \<lfloor>(vy p - vy gridMin) * inverseCellWidth\<rfloor>
                                \<lfloor>(vz p - vz gridMin) * inverseCellWidth\<rfloor> side) pos)"
    using kernComputeIndices_eq [OF assms] by simp
  have r: "gridIndex3Dto1D x y z side = x + y * side + z * side\<^sup>2
           \<and> 0 \<le> gridIndex3Dto1D x y z side \<and> gridIndex3Dto1D x y z side < side ^ 3"
    if "0 \<le> x \<and> x < side \<and> 0 \<le> y \<and> y < side \<and> 0 \<le> z \<and> z < side"
    using that gridIndex3Dto1D_range [of x side y z]
    by (simp add: gridIndex3Dto1D_def power2_eq_square power3_eq_cube algebra_simps)
  have o: "gridIndex3Dto1D x y z side = - 1"
    if "\<not> (0 \<le> x \<and> x < side \<and> 0 \<le> y \<and> y < side \<and> 0 \<le> z \<and> z < side)"
    using that by (auto simp: gridIndex3Dto1D_def)
  from k r o show ?thesis by blast
qed

theorem kernComputeIndices_encodes_witness:
  "kernComputeIndices 2 22 (Vec3 (- 110) (- 110) (- 110)) (1 / 10)
       [Vec3 0 0 0, Vec3 (- 95) 8 100] [7, 7] [7, 7]
     = Some ([0, 1], [5577, 10407])
   \<and> gridIndex3Dto1D 1 11 21 22 = 10407
   \<and> gridIndex3Dto1D 22 0 0 22 = - 1"
  using kernComputeIndices_encodes [of "[Vec3 0 0 0, Vec3 (- 95) 8 100]" 2 "[7, 7]" "[7, 7]"
      22 "Vec3 (- 110) (- 110) (- 110)" "1 / 10" 1 11 21]
    kernComputeIndices_encodes [of "[Vec3 0 0 0, Vec3 (- 95) 8 100]" 2 "[7, 7]" "[7, 7]"
      22 "Vec3 (- 110) (- 110) (- 110)" "1 / 10" 22 0 0]
  by (simp add: gridIndex3Dto1D_def upt_conv_Cons)

subsection \<open>C8: steps after teardown\<close>

text \<open>
  Claim C8, as the code has it. \<^verbatim>\<open>endSimulation\<close> releases the buffers and records
  nothing; the step functions test nothing before they launch their kernels. With at
  least one boid, the first kernel of a step after \<^verbatim>\<open>endSimulation\<close> accesses a
  released buffer: the step is undefined behaviour. It is not the exit through
  \<^verbatim>\<open>checkCUDAError\<close>, the one way in which this file fails fast.
\<close>

theorem step_after_teardown_is_undefined:
  assumes "0 < numObjects s"
  shows "stepSimulationNaive dt (endSimulation s) = Undefined
         \<and> stepSimulationScatteredGrid order dt (endSimulation s) = Undefined
         \<and> stepSimulationCoherentGrid order dt (endSimulation s) = Undefined"
  using stepSimulationNaive_released [OF assms] buildGrid_released [OF assms]
  by (simp add: stepSimulationScatteredGrid_def stepSimulationCoherentGrid_def run_def)

theorem step_after_teardown_is_undefined_witness:
  "0 < numObjects twoBoids
   \<and> stepSimulationNaive 1 (endSimulation twoBoids) = Undefined
   \<and> stepSimulationScatteredGrid [0, 1] 1 (endSimulation twoBoids) = Undefined
   \<and> stepSimulationCoherentGrid [0, 1] 1 (endSimulation twoBoids) = Undefined"
proof -
  have n: "0 < numObjects twoBoids" by (simp add: twoBoids_def)
  from step_after_teardown_is_undefined [OF n] n show ?thesis by blast
qed

text \<open>
  The claim as the specification states it fails on \<open>twoBoids\<close>: no step after
  \<^verbatim>\<open>endSimulation\<close> ends in the exit.
\<close>

theorem step_after_teardown_does_not_exit:
  "stepSimulationNaive 1 (endSimulation twoBoids) \<noteq> Exit
   \<and> stepSimulationScatteredGrid [0, 1] 1 (endSimulation twoBoids) \<noteq> Exit
   \<and> stepSimulationCoherentGrid [0, 1] 1 (endSimulation twoBoids) \<noteq> Exit"
proof -
  have n: "0 < numObjects twoBoids" by (simp add: twoBoids_def)
  show ?thesis
    using stepSimulationNaive_released [OF n] buildGrid_released [OF n]
    by (simp add: stepSimulationScatteredGrid_def stepSimulationCoherentGrid_def run_def)
qed

subsection \<open>C9: positions in the domain have cells\<close>

text \<open>
  Claim C9. With the grid parameters \<^verbatim>\<open>initSimulation\<close> derives (from the global
  \<^verbatim>\<open>gridMinimum\<close> at its initial zero), the three cell coordinates of a position in the
  domain lie in \<open>[0, gridSideCount)\<close>, and its cell code is a cell of the grid, not
  \<open>-1\<close>. For positions in the domain the indexer therefore stores no \<open>-1\<close>, the sort
  leaves only cells of the grid among the keys, and no thread of
  \<^verbatim>\<open>renewGridCellIndex\<close> stores outside the lookup table, in whatever order the
  threads run.
\<close>

theorem positions_in_domain_have_cells:
  assumes init: "initSimulation N cudaError rand mem s0 = Done s"
    and zero: "gridMinimum s0 = vzero"
    and box: "\<forall>p \<in> set pos. inBox p"
    and len: "length pos = nat N"
  shows "(\<forall>p \<in> set pos.
            0 \<le> \<lfloor>(vx p - vx (gridMinimum s)) * gridInverseCellWidth s\<rfloor>
            \<and> \<lfloor>(vx p - vx (gridMinimum s)) * gridInverseCellWidth s\<rfloor> < gridSideCount s
            \<and> 0 \<le> \<lfloor>(vy p - vy (gridMinimum s)) * gridInverseCellWidth s\<rfloor>
            \<and> \<lfloor>(vy p - vy (gridMinimum s)) * gridInverseCellWidth s\<rfloor> < gridSideCount s
            \<and> 0 \<le> \<lfloor>(vz p - vz (gridMinimum s)) * gridInverseCellWidth s\<rfloor>
            \<and> \<lfloor>(vz p - vz (gridMinimum s)) * gridInverseCellWidth s\<rfloor> < gridSideCount s
            \<and> cellOfPos (gridSideCount s) (gridMinimum s) (gridInverseCellWidth s) p \<noteq> - 1)
         \<and> (\<exists>indices keys keys' indices'.
               kernComputeIndices N (gridSideCount s) (gridMinimum s) (gridInverseCellWidth s)
                 pos (devBoidIndex s) (devGridCellnumber s) = Some (indices, keys)
               \<and> sort_by_key N keys indices = Some (keys', indices')
               \<and> (\<forall>c \<in> set keys. 0 \<le> c \<and> c < gridCellCount s)
               \<and> (\<forall>c \<in> set keys'. 0 \<le> c \<and> c < int (length (gridCellIndex s)))
               \<and> (\<forall>order starts cells.
                     length starts = nat N \<and> length cells = length (gridCellIndex s) \<longrightarrow>
                     renewGridCellIndex order N starts cells keys' \<noteq> None))"
proof -
  note g = initSimulation_grid [OF init zero]
  let ?gm = "Vec3 (- 110) (- 110) (- 110)"
  have bufs: "length (devBoidIndex s) = nat N" "length (devGridCellnumber s) = nat N"
    using init by (auto simp: initSimulation_def Let_def split: if_splits)
  have coords: "0 \<le> \<lfloor>(vx p - vx (gridMinimum s)) * gridInverseCellWidth s\<rfloor>
            \<and> \<lfloor>(vx p - vx (gridMinimum s)) * gridInverseCellWidth s\<rfloor> < gridSideCount s
            \<and> 0 \<le> \<lfloor>(vy p - vy (gridMinimum s)) * gridInverseCellWidth s\<rfloor>
            \<and> \<lfloor>(vy p - vy (gridMinimum s)) * gridInverseCellWidth s\<rfloor> < gridSideCount s
            \<and> 0 \<le> \<lfloor>(vz p - vz (gridMinimum s)) * gridInverseCellWidth s\<rfloor>
            \<and> \<lfloor>(vz p - vz (gridMinimum s)) * gridInverseCellWidth s\<rfloor> < gridSideCount s
            \<and> cellOfPos (gridSideCount s) (gridMinimum s) (gridInverseCellWidth s) p \<noteq> - 1"
    if "p \<in> set pos" for p
  proof -
    from that box have b: "inBox p" by blast
    then have c: "- 100 \<le> vx p" "vx p \<le> 100" "- 100 \<le> vy p" "vy p \<le> 100"
      "- 100 \<le> vz p" "vz p \<le> 100"
      by (simp_all add: inBox_def scene_scale_def)
    from coord_in_grid [OF c(1,2)] coord_in_grid [OF c(3,4)] coord_in_grid [OF c(5,6)]
      cellOfPos_in_grid [OF b]
    show ?thesis by (simp add: g)
  qed
  let ?keys = "map (cellOfPos 22 ?gm (1 / 10)) pos"
  have k: "kernComputeIndices N (gridSideCount s) (gridMinimum s) (gridInverseCellWidth s)
             pos (devBoidIndex s) (devGridCellnumber s) = Some (map int [0..<nat N], ?keys)"
    using kernComputeIndices_eq [OF len bufs] by (simp add: g)
  have kr: "\<forall>c \<in> set ?keys. 0 \<le> c \<and> c < 10648"
    by (rule kernComputeIndices_in_grid [OF box])
  from sort_by_key_props [of ?keys N "map int [0..<nat N]"] len
  obtain keys' indices' where srt: "sort_by_key N ?keys (map int [0..<nat N]) = Some (keys', indices')"
    and sl: "length keys' = nat N" and ss: "set keys' = set ?keys"
    by auto
  have kr': "\<forall>c \<in> set keys'. 0 \<le> c \<and> c < int (length (gridCellIndex s))"
    using kr ss g by simp
  have rn: "renewGridCellIndex order N starts cells keys' \<noteq> None"
    if "length starts = nat N \<and> length cells = length (gridCellIndex s)" for order starts cells
    using renewGridCellIndex_total [of keys' cells starts N order] kr' that sl by auto
  from coords k srt kr kr' rn show ?thesis
    by (simp add: g)
qed

theorem positions_in_domain_have_cells_witness:
  "(case initSimulation 2 False (\<lambda>i. Vec3 1 (- 1) 0) zeroFresh startup of
      Done s \<Rightarrow>
        cellOfPos (gridSideCount s) (gridMinimum s) (gridInverseCellWidth s) (Vec3 100 (- 100) 0)
          \<noteq> - 1
        \<and> cellOfPos (gridSideCount s) (gridMinimum s) (gridInverseCellWidth s) (Vec3 0 0 0)
          \<noteq> - 1
    | Exit \<Rightarrow> False
    | Undefined \<Rightarrow> False)"
proof -
  obtain s where s: "initSimulation 2 False (\<lambda>i. Vec3 1 (- 1) 0) zeroFresh startup = Done s"
    by (simp add: initSimulation_def Let_def)
  have z: "gridMinimum startup = vzero"
    by (simp add: startup_def)
  have b: "\<forall>p \<in> set [Vec3 100 (- 100) 0, Vec3 0 0 0]. inBox p"
    by (simp add: inBox_def scene_scale_def)
  from positions_in_domain_have_cells [OF s z b] show ?thesis
    using s by simp
qed

subsection \<open>C10: the wrap of one coordinate\<close>

text \<open>
  Claim C10. The two comparisons of the integrator send every real coordinate into
  \<open>[-scene_scale, scene_scale]\<close> in one application, whatever its distance from the
  domain, and leave the two bounds themselves unchanged. So the position the integrator
  stores is in the domain for every position, velocity and time step.
\<close>

theorem wrapCoord_single_application:
  "- scene_scale \<le> wrapCoord c \<and> wrapCoord c \<le> scene_scale
   \<and> wrapCoord (- scene_scale) = - scene_scale \<and> wrapCoord scene_scale = scene_scale
   \<and> inBox (wrapPos (vadd p (vscale v dt)))"
  by (simp add: wrapCoord_def scene_scale_def Let_def inBox_def wrapPos_def)

end
